theory Spec2Isabelle
  imports Complex_Main "HOL-Library.AList"
begin

section \<open>JavaScript values used by the RAG utilities\<close>

text \<open>
  A JavaScript string is a sequence of UTF-16 code units. A code unit is modelled
  as a natural number (the values below 65536 are the code units), a string as the
  list of its code units, so that \<open>length\<close> is the \<open>.length\<close> of the source.
  \<open>str\<close> embeds an ASCII literal.
\<close>

type_synonym code_unit = nat
type_synonym jsstring = "code_unit list"

definition str :: "string \<Rightarrow> jsstring" where
  "str s = map of_char s"

text \<open>
  \<open>String.prototype.slice\<close> and \<open>Array.prototype.slice\<close>: a negative index counts
  from the end, both indices are clamped to the length, and an empty range gives
  the empty sequence.
\<close>

definition slice_index :: "int \<Rightarrow> nat \<Rightarrow> nat" where
  "slice_index i n = (if i < 0 then nat (max (int n + i) 0) else min (nat i) n)"

definition slice :: "'a list \<Rightarrow> int \<Rightarrow> int \<Rightarrow> 'a list" where
  "slice xs b e =
     (let from = slice_index b (length xs); to = slice_index e (length xs)
      in take (to - from) (drop from xs))"

text \<open>\<open>lastIndexOf\<close> for a one-unit search string: the last index, or -1.\<close>

definition lastIndexOf :: "'a list \<Rightarrow> 'a \<Rightarrow> int" where
  "lastIndexOf xs c =
     (if c \<in> set xs
      then int (length xs) - 1 - int (length (takeWhile (\<lambda>x. x \<noteq> c) (rev xs)))
      else - 1)"

text \<open>
  The code units that \<open>trim\<close> removes and that \<open>\s\<close> matches: ECMAScript's
  WhiteSpace and LineTerminator.
\<close>

definition is_space :: "code_unit \<Rightarrow> bool" where
  "is_space c \<longleftrightarrow>
     (9 \<le> c \<and> c \<le> 13) \<or> c = 32 \<or> c = 160 \<or> c = 5760 \<or> (8192 \<le> c \<and> c \<le> 8202)
     \<or> c = 8232 \<or> c = 8233 \<or> c = 8239 \<or> c = 8287 \<or> c = 12288 \<or> c = 65279"

definition trim :: "jsstring \<Rightarrow> jsstring" where
  "trim s = rev (dropWhile is_space (rev (dropWhile is_space s)))"

text \<open>Decimal rendering of a non-negative integer, as a template literal does.\<close>

fun show_nat :: "nat \<Rightarrow> jsstring" where
  "show_nat n = (if n < 10 then [48 + n] else show_nat (n div 10) @ [48 + n mod 10])"

declare show_nat.simps [simp del]

text \<open>
  The values stored under \<open>metadata\<close> (a \<open>Record<string, any>\<close>): the program
  stores strings, booleans and integers there and reads fields that may be absent.
  Numbers are integers here; the scores, which are not, have a type of their own
  below.
\<close>

datatype jsval = JUndefined | JNull | JBool bool | JNum int | JStr jsstring

type_synonym metadata = "(jsstring \<times> jsval) list"

text \<open>
  A relevance score is a double: a finite value (taken as a real number, rounding
  left out), \<open>Infinity\<close> or \<open>NaN\<close> (both arise from the division by
  \<open>Math.sqrt(text.length)\<close> on an empty text).
\<close>

datatype jsnum = Fin real | PosInf | NaN

section \<open>Data model (rag-utils.ts)\<close>

record chunk =
  c_id :: jsstring
  c_text :: jsstring
  c_source :: jsstring
  c_metadata :: metadata
  c_score :: "jsnum option"

record citation =
  cit_id :: jsstring
  cit_title :: jsval
  cit_type :: jsval

text \<open>Reading a numeric metadata field, \<open>chunk.metadata.start\<close> and the like.\<close>

definition meta_num :: "chunk \<Rightarrow> string \<Rightarrow> int option" where
  "meta_num c k = (case map_of (c_metadata c) (str k) of Some (JNum n) \<Rightarrow> Some n | _ \<Rightarrow> None)"

section \<open>chunkText\<close>

text \<open>
  The loop compares \<open>breakPoint > chunkSize * 0.7\<close>, and the product is a product of
  doubles. The literal \<open>0.7\<close> denotes the double nearest to seven tenths, which is
  \<open>6305039478318694 / 2 ^ 53\<close>. For an integer \<open>chunkSize\<close> of magnitude below
  \<open>2 ^ 53\<close> (a number that is itself a double) the double product is the exact
  product \<open>chunkSize * 6305039478318694 / 2 ^ 53\<close> rounded to 53 significant bits,
  to the nearest, ties to the even significand; the product lies in the normal
  range, so nothing else is lost. The rounding is carried out below on the natural
  number \<open>n = chunkSize * 6305039478318694\<close>, which is the exact product scaled by
  \<open>2 ^ 53\<close>: \<open>shift53 n\<close> is the number of low bits that do not fit into 53 bits,
  \<open>round_half_even n s\<close> is \<open>n / 2 ^ s\<close> rounded to an integer, and \<open>round53 n\<close> is
  the rounded number at the scale of \<open>n\<close>. \<open>times_0_7 chunkSize\<close> is the double
  \<open>chunkSize * 0.7\<close> multiplied by \<open>2 ^ 53\<close>, an integer.
\<close>

definition double_0_7 :: nat where
  "double_0_7 = 6305039478318694"

function shift53 :: "nat \<Rightarrow> nat" where
  "shift53 n = (if n < 2 ^ 53 then 0 else Suc (shift53 (n div 2)))"
  by pat_completeness auto
termination
  by (relation "measure (\<lambda>n. n)") auto

declare shift53.simps [simp del]

definition round_half_even :: "nat \<Rightarrow> nat \<Rightarrow> nat" where
  "round_half_even n s =
     (let q = n div 2 ^ s; r = n mod 2 ^ s
      in if 2 * r < 2 ^ s then q
         else if 2 ^ s < 2 * r then q + 1
         else if even q then q else q + 1)"

definition round53 :: "nat \<Rightarrow> nat" where
  "round53 n = round_half_even n (shift53 n) * 2 ^ shift53 n"

definition times_0_7 :: "int \<Rightarrow> int" where
  "times_0_7 chunkSize =
     (if chunkSize < 0 then - int (round53 (nat (- chunkSize) * double_0_7))
      else int (round53 (nat chunkSize * double_0_7)))"

text \<open>
  The text of one chunk, the local variable \<open>chunkText\<close> of the loop body before
  it is trimmed: the window \<open>[start, start + chunkSize)\<close> cut at the end of the
  text and, when the window stops before the end of the text, cut again after the
  last period or newline if that break point is greater than the double
  \<open>chunkSize * 0.7\<close>. \<open>chunkSize\<close> and \<open>overlap\<close> are integers, and the break point,
  an index or \<open>-1\<close>, is compared with the double exactly, both sides scaled by
  \<open>2 ^ 53\<close>. The double product is 7 at \<open>chunkSize = 10\<close> and 700 at 1000, the size
  the pipeline uses; at \<open>chunkSize = 90\<close> it is \<open>62.99999999999999\<close>, below 63, so a
  break point at index 63 cuts the chunk there.
\<close>

definition chunk_window :: "jsstring \<Rightarrow> int \<Rightarrow> int \<Rightarrow> jsstring" where
  "chunk_window text chunkSize start =
     (let end_pos = min (start + chunkSize) (int (length text));
          chunkText = slice text start end_pos
      in if end_pos < int (length text)
         then (let lastPeriod = lastIndexOf chunkText 46;
                   lastNewline = lastIndexOf chunkText 10;
                   breakPoint = max lastPeriod lastNewline
               in if times_0_7 chunkSize < breakPoint * 2 ^ 53
                  then slice chunkText 0 (breakPoint + 1)
                  else chunkText)
         else chunkText)"

text \<open>
  The object pushed for a chunk: the id \<open>sourceId_chunk_index\<close>, the trimmed
  text, and the caller's metadata overwritten with \<open>chunkIndex\<close>, \<open>start\<close> and
  \<open>end\<close> (an object spread keeps a key's place and appends a new key, as
  \<open>AList.update\<close> does).
\<close>

definition make_chunk :: "jsstring \<Rightarrow> metadata \<Rightarrow> nat \<Rightarrow> int \<Rightarrow> jsstring \<Rightarrow> chunk" where
  "make_chunk sourceId metadata chunkIndex start chunkText =
     \<lparr> c_id = sourceId @ str ''_chunk_'' @ show_nat chunkIndex,
       c_text = trim chunkText,
       c_source = sourceId,
       c_metadata =
         AList.update (str ''end'') (JNum (start + int (length chunkText)))
           (AList.update (str ''start'') (JNum start)
             (AList.update (str ''chunkIndex'') (JNum (int chunkIndex)) metadata)),
       c_score = None \<rparr>"

text \<open>
  One pass through the loop body: push the chunk, advance the cursor by the
  emitted length minus the overlap, and when that does not move past the start
  recorded in the chunk just pushed, jump to that start plus \<open>chunkSize\<close>.
  The result is the new cursor and the new chunk list.
\<close>

definition chunk_step ::
  "jsstring \<Rightarrow> int \<Rightarrow> int \<Rightarrow> jsstring \<Rightarrow> metadata \<Rightarrow> int \<Rightarrow> nat \<Rightarrow> chunk list
     \<Rightarrow> int \<times> chunk list" where
  "chunk_step text chunkSize overlap sourceId metadata start chunkIndex chunks =
     (let chunkText = chunk_window text chunkSize start;
          chunks' = chunks @ [make_chunk sourceId metadata chunkIndex start chunkText];
          start' = start + int (length chunkText) - overlap
      in case meta_num (last chunks') ''start'' of
           Some prev \<Rightarrow> (if start' \<le> prev then (prev + chunkSize, chunks') else (start', chunks'))
         | None \<Rightarrow> (start', chunks'))"

text \<open>
  The \<open>while (start < text.length)\<close> loop. Nothing in the source bounds the number
  of passes, so the loop is a partial function: \<open>None\<close> is a loop that never
  returns.
\<close>

partial_function (option) chunk_loop ::
  "jsstring \<Rightarrow> int \<Rightarrow> int \<Rightarrow> jsstring \<Rightarrow> metadata \<Rightarrow> int \<Rightarrow> nat \<Rightarrow> chunk list
     \<Rightarrow> chunk list option" where
  "chunk_loop text chunkSize overlap sourceId metadata start chunkIndex chunks =
     (if start < int (length text)
      then (case chunk_step text chunkSize overlap sourceId metadata start chunkIndex chunks of
              (start', chunks') \<Rightarrow>
                chunk_loop text chunkSize overlap sourceId metadata start' (chunkIndex + 1) chunks')
      else Some chunks)"

declare chunk_loop.simps [code]

definition chunkText ::
  "jsstring \<Rightarrow> int \<Rightarrow> int \<Rightarrow> jsstring \<Rightarrow> metadata \<Rightarrow> chunk list option" where
  "chunkText text chunkSize overlap sourceId metadata =
     (if text = [] then Some []
      else chunk_loop text chunkSize overlap sourceId metadata 0 0 [])"

text \<open>The character span \<open>[metadata.start, metadata.end)\<close> of a chunk.\<close>

definition span_start :: "chunk \<Rightarrow> int" where
  "span_start c = (case meta_num c ''start'' of Some n \<Rightarrow> n | None \<Rightarrow> 0)"

definition span_end :: "chunk \<Rightarrow> int" where
  "span_end c = (case meta_num c ''end'' of Some n \<Rightarrow> n | None \<Rightarrow> 0)"

definition spans :: "chunk list \<Rightarrow> (int \<times> int) list" where
  "spans cs = map (\<lambda>c. (span_start c, span_end c)) cs"

definition in_some_span :: "int \<Rightarrow> chunk list \<Rightarrow> bool" where
  "in_some_span p cs = list_ex (\<lambda>c. span_start c \<le> p \<and> p < span_end c) cs"

definition text_lengths :: "chunk list \<Rightarrow> nat list" where
  "text_lengths cs = map (\<lambda>c. length (c_text c)) cs"

section \<open>extractCitations\<close>

text \<open>The classes \<open>\d\<close> and \<open>[A-Z]\<close>.\<close>

definition is_digit :: "code_unit \<Rightarrow> bool" where
  "is_digit c \<longleftrightarrow> 48 \<le> c \<and> c \<le> 57"

definition is_upper :: "code_unit \<Rightarrow> bool" where
  "is_upper c \<longleftrightarrow> 65 \<le> c \<and> c \<le> 90"

text \<open>
  \<open>String.prototype.match\<close> with a global regular expression, given what the
  expression matches at the head of a string (the length of the match, if any):
  the matches are collected from left to right, the search resumes after each
  match, and an empty match moves it one unit on.
\<close>

function match_all :: "(jsstring \<Rightarrow> nat option) \<Rightarrow> jsstring \<Rightarrow> jsstring list" where
  "match_all m [] = (case m [] of Some n \<Rightarrow> [[]] | None \<Rightarrow> [])"
| "match_all m (c # cs) =
     (case m (c # cs) of
        Some n \<Rightarrow> take n (c # cs) # match_all m (drop (max n 1) (c # cs))
      | None \<Rightarrow> match_all m cs)"
  by pat_completeness auto
termination
  by (relation "measure (\<lambda>(m, s). length s)") auto

text \<open>\<open>/NCT\d+/\<close> at the head of a string.\<close>

definition nct_at :: "jsstring \<Rightarrow> nat option" where
  "nct_at s =
     (let digits = takeWhile is_digit (drop 3 s)
      in if take 3 s = str ''NCT'' \<and> digits \<noteq> [] then Some (3 + length digits) else None)"

text \<open>
  \<open>/rxcui["\s:]+(\d+)/i\<close> at the head of a string. Without the \<open>u\<close> flag the
  \<open>i\<close> flag lets a letter of the pattern match its two ASCII cases only. The
  separator class and the digits are disjoint, so the greedy run of separators is
  the only split that can match.
\<close>

definition is_rxcui_sep :: "code_unit \<Rightarrow> bool" where
  "is_rxcui_sep c \<longleftrightarrow> c = 34 \<or> is_space c \<or> c = 58"

definition ascii_lower :: "code_unit \<Rightarrow> code_unit" where
  "ascii_lower c = (if is_upper c then c + 32 else c)"

definition rxcui_at :: "jsstring \<Rightarrow> nat option" where
  "rxcui_at s =
     (let seps = takeWhile is_rxcui_sep (drop 5 s);
          digits = takeWhile is_digit (dropWhile is_rxcui_sep (drop 5 s))
      in if map ascii_lower (take 5 s) = str ''rxcui'' \<and> seps \<noteq> [] \<and> digits \<noteq> []
         then Some (5 + length seps + length digits) else None)"

text \<open>\<open>match.match(/\d+/)\<close>: the first run of digits, or \<open>null\<close>.\<close>

definition first_digits :: "jsstring \<Rightarrow> jsstring option" where
  "first_digits s =
     (let digits = takeWhile is_digit (dropWhile (\<lambda>c. \<not> is_digit c) s)
      in if digits = [] then None else Some digits)"

text \<open>JavaScript truthiness, for \<open>metadata.type || 'document'\<close>; a missing key reads as \<open>undefined\<close>.\<close>

definition truthy :: "jsval \<Rightarrow> bool" where
  "truthy v = (case v of JUndefined \<Rightarrow> False | JNull \<Rightarrow> False | JBool b \<Rightarrow> b
                | JNum n \<Rightarrow> n \<noteq> 0 | JStr s \<Rightarrow> s \<noteq> [])"

definition meta_get :: "chunk \<Rightarrow> string \<Rightarrow> jsval" where
  "meta_get c k = (case map_of (c_metadata c) (str k) of Some v \<Rightarrow> v | None \<Rightarrow> JUndefined)"

text \<open>
  The state of the \<open>forEach\<close>: the \<open>citations\<close> array and the \<open>seenIds\<close> set.
  Each of the three sites pushes a citation only when its id is not in \<open>seenIds\<close>,
  and then adds the id. A citation built without a \<open>title\<close> has \<open>JUndefined\<close> there.
\<close>

type_synonym cite_state = "citation list \<times> jsstring set"

definition push_unseen :: "citation \<Rightarrow> cite_state \<Rightarrow> cite_state" where
  "push_unseen cit st =
     (case st of (citations, seenIds) \<Rightarrow>
        if cit_id cit \<in> seenIds then st
        else (citations @ [cit], insert (cit_id cit) seenIds))"

definition nct_citation :: "jsstring \<Rightarrow> citation" where
  "nct_citation nctId =
     \<lparr> cit_id = nctId, cit_title = JUndefined, cit_type = JStr (str ''clinical_trial'') \<rparr>"

definition rxnorm_citation :: "jsstring \<Rightarrow> citation" where
  "rxnorm_citation rxId =
     \<lparr> cit_id = rxId, cit_title = JUndefined, cit_type = JStr (str ''rxnorm'') \<rparr>"

definition source_citation :: "chunk \<Rightarrow> citation" where
  "source_citation c =
     \<lparr> cit_id = c_source c,
       cit_title = meta_get c ''title'',
       cit_type = (if truthy (meta_get c ''type'') then meta_get c ''type''
                   else JStr (str ''document'')) \<rparr>"

text \<open>
  The body of the \<open>forEach\<close> for one chunk: the NCT ids, then the RxCUI numbers,
  then the chunk's source. The third step is not conditional on the first two.
\<close>

definition cite_chunk :: "cite_state \<Rightarrow> chunk \<Rightarrow> cite_state" where
  "cite_chunk st c =
     (let nctMatches = match_all nct_at (c_text c);
          st1 = foldl (\<lambda>s nctId. push_unseen (nct_citation nctId) s) st nctMatches;
          rxcuiMatches = match_all rxcui_at (c_text c);
          st2 = foldl (\<lambda>s m. case first_digits m of
                                 Some rxId \<Rightarrow> push_unseen (rxnorm_citation rxId) s
                               | None \<Rightarrow> s) st1 rxcuiMatches
      in push_unseen (source_citation c) st2)"

definition extractCitations :: "chunk list \<Rightarrow> citation list" where
  "extractCitations chunks = fst (foldl cite_chunk ([], {}) chunks)"

text \<open>
  For the claims about duplicates: every citation the three sites would push for
  the chunks, in order, and the list that keeps of each id its first occurrence.
\<close>

fun first_by_id :: "citation list \<Rightarrow> citation list" where
  "first_by_id [] = []"
| "first_by_id (c # cs) = c # first_by_id (filter (\<lambda>d. cit_id d \<noteq> cit_id c) cs)"

definition chunk_candidates :: "chunk \<Rightarrow> citation list" where
  "chunk_candidates c =
     map nct_citation (match_all nct_at (c_text c))
     @ map rxnorm_citation (List.map_filter first_digits (match_all rxcui_at (c_text c)))
     @ [source_citation c]"

definition citation_candidates :: "chunk list \<Rightarrow> citation list" where
  "citation_candidates chunks = concat (map chunk_candidates chunks)"

text \<open>The structured identifiers of a chunk: its NCT ids and its RxCUI numbers.\<close>

definition structured_ids :: "chunk \<Rightarrow> jsstring list" where
  "structured_ids c =
     match_all nct_at (c_text c) @ List.map_filter first_digits (match_all rxcui_at (c_text c))"

text \<open>Two chunks of one document for the evaluations: both texts hold the same NCT id.\<close>

definition example_trial_chunk :: chunk where
  "example_trial_chunk =
     \<lparr> c_id = str ''doc1_chunk_0'', c_text = str ''see NCT01234567'', c_source = str ''doc1'',
       c_metadata = [], c_score = None \<rparr>"

definition example_rxcui_chunk :: chunk where
  "example_rxcui_chunk =
     \<lparr> c_id = str ''doc1_chunk_1'', c_text = str ''NCT01234567 again, rxcui: 42'',
       c_source = str ''doc1'', c_metadata = [(str ''type'', JStr (str ''fda_label''))],
       c_score = None \<rparr>"

section \<open>summarizeChunks\<close>

text \<open>
  Two built-ins are not reproduced here and are taken as parameters of the model:
  \<open>String.prototype.toLowerCase\<close>, which follows the Unicode case tables, and the
  \<open>RegExp\<close> constructor applied to a pattern computed at run time. \<open>RegExp_g p\<close> is
  \<open>new RegExp(p, 'g')\<close>: \<open>None\<close> when the constructor throws a \<open>SyntaxError\<close>,
  otherwise the function that gives, for a text, the array of matches of
  \<open>text.match\<close> (empty for \<open>null\<close>).
\<close>

record builtins =
  toLowerCase :: "jsstring \<Rightarrow> jsstring"
  RegExp_g :: "jsstring \<Rightarrow> (jsstring \<Rightarrow> jsstring list) option"

text \<open>
  The string literals of the templates, as code units (the source writes them in
  Chinese; 10 is the newline). In the order of the definitions below they read:
  \<^item> \<open>lit_drug\<close>: drug:
  \<^item> \<open>lit_cond\<close>: indication:
  \<^item> \<open>lit_query\<close>: query:
  \<^item> \<open>lit_yes\<close>: yes
  \<^item> \<open>lit_no\<close>: no
  \<^item> \<open>lit_ae1\<close>: adverse event
  \<^item> \<open>lit_ae2\<close>: side effect
  \<^item> \<open>lit_ct_title\<close>: Clinical trial adverse event analysis
  \<^item> \<open>lit_source_label\<close>: data source:
  \<^item> \<open>lit_ct_fragments\<close>: clinical trial fragments
  \<^item> \<open>lit_key_findings\<close>: Key findings
  \<^item> \<open>lit_ct_studies\<close>: - studies involved:
  \<^item> \<open>lit_ct_control\<close>: - with a control comparison:
  \<^item> \<open>lit_ct_ae\<close>: - adverse event relevance:
  \<^item> \<open>lit_ct_evidence\<close>: Evidence summary
  \<^item> \<open>lit_ct_advice_tail\<close>: relevant fragments analysed, ... (closing sentence)
  \<^item> \<open>lit_ct_advice\<close>: Advice
  \<^item> \<open>lit_ct_based\<close>: based on
  \<^item> \<open>lit_zh_warning\<close>: warning
  \<^item> \<open>lit_zh_adverse\<close>: adverse reaction
  \<^item> \<open>lit_zh_contra\<close>: contraindication
  \<^item> \<open>lit_zh_boxed\<close>: black box
  \<^item> \<open>lit_fda_title\<close>: FDA drug label safety information
  \<^item> \<open>lit_fda_fragments\<close>: FDA label fragments
  \<^item> \<open>lit_fda_classes\<close>: Safety information classes
  \<^item> \<open>lit_fda_warnings\<close>: - warnings:
  \<^item> \<open>lit_fda_adverse\<close>: - adverse reactions:
  \<^item> \<open>lit_fda_contra\<close>: - contraindications:
  \<^item> \<open>lit_fda_boxed\<close>: - boxed warnings:
  \<^item> \<open>lit_items_nlnl\<close>: items
  \<^item> \<open>lit_items_nl\<close>: items
  \<^item> \<open>lit_fda_important\<close>: Important safety information
  \<^item> \<open>lit_rx_title\<close>: RxNav drug terminology information
  \<^item> \<open>lit_rx_fragments\<close>: RxNav terminology fragments
  \<^item> \<open>lit_rx_stats\<close>: Terminology statistics
  \<^item> \<open>lit_rx_rxcui\<close>: - RxCUI identifiers:
  \<^item> \<open>lit_rx_atc\<close>: - ATC class codes:
  \<^item> \<open>lit_count_nlnl\<close>: (counter word)
  \<^item> \<open>lit_count_nl\<close>: (counter word)
  \<^item> \<open>lit_rx_details\<close>: Drug terminology details
  \<^item> \<open>lit_gen_title\<close>: Information summary
  \<^item> \<open>lit_gen_fragments\<close>: relevant fragments:
  \<^item> \<open>lit_gen_main\<close>: Main content
  \<^item> \<open>lit_not_found\<close>: No information related to the query was found. Query:
\<close>

definition lit_drug :: jsstring where
  "lit_drug = str ''**'' @ [33647, 29289] @ str ''**: ''"

definition lit_cond :: jsstring where
  "lit_cond = str ''**'' @ [36866, 24212, 30151] @ str ''**: ''"

definition lit_query :: jsstring where
  "lit_query = str ''**'' @ [26597, 35810] @ str ''**: ''"

definition lit_yes :: jsstring where
  "lit_yes = [26159]"

definition lit_no :: jsstring where
  "lit_no = [21542]"

definition lit_ae1 :: jsstring where
  "lit_ae1 = [19981, 33391, 20107, 20214]"

definition lit_ae2 :: jsstring where
  "lit_ae2 = [21103, 20316, 29992]"

definition lit_ct_title :: jsstring where
  "lit_ct_title = str ''## '' @ [20020, 24202, 35797, 39564, 19981, 33391, 20107, 20214, 20998, 26512, 10, 10]"

definition lit_source_label :: jsstring where
  "lit_source_label = str ''**'' @ [25968, 25454, 26469, 28304] @ str ''**: ''"

definition lit_ct_fragments :: jsstring where
  "lit_ct_fragments = str '' '' @ [20010, 20020, 24202, 35797, 39564, 29255, 27573, 10, 10]"

definition lit_key_findings :: jsstring where
  "lit_key_findings = str ''### '' @ [20851, 38190, 21457, 29616, 10]"

definition lit_ct_studies :: jsstring where
  "lit_ct_studies = str ''- '' @ [28041, 21450, 30740, 31350, 25968, 37327] @ str '': ''"

definition lit_ct_control :: jsstring where
  "lit_ct_control = str ''- '' @ [21253, 21547, 23545, 29031, 32452, 27604, 36739] @ str '': ''"

definition lit_ct_ae :: jsstring where
  "lit_ct_ae = str ''- '' @ [19981, 33391, 20107, 20214, 30456, 20851, 24615] @ str '': ''"

definition lit_ct_evidence :: jsstring where
  "lit_ct_evidence = str ''### '' @ [35777, 25454, 25688, 35201, 10]"

definition lit_ct_advice_tail :: jsstring where
  "lit_ct_advice_tail = str '' '' @ [20010, 30456, 20851, 29255, 27573, 30340, 20998, 26512, 65292, 24314, 35758, 36827, 19968, 27493, 26597, 30475, 20855, 20307, 30740, 31350, 35814, 24773, 20197, 33719, 24471, 23436, 25972, 30340, 23433, 20840, 24615, 35780, 20272, 12290]"

definition lit_ct_advice :: jsstring where
  "lit_ct_advice = str ''### '' @ [24314, 35758, 10]"

definition lit_ct_based :: jsstring where
  "lit_ct_based = [22522, 20110] @ str '' ''"

definition lit_zh_warning :: jsstring where
  "lit_zh_warning = [35686, 21578]"

definition lit_zh_adverse :: jsstring where
  "lit_zh_adverse = [19981, 33391, 21453, 24212]"

definition lit_zh_contra :: jsstring where
  "lit_zh_contra = [31105, 24524]"

definition lit_zh_boxed :: jsstring where
  "lit_zh_boxed = [40657, 26694]"

definition lit_fda_title :: jsstring where
  "lit_fda_title = str ''## FDA '' @ [33647, 29289, 26631, 31614, 23433, 20840, 20449, 24687, 10, 10]"

definition lit_fda_fragments :: jsstring where
  "lit_fda_fragments = str '' '' @ [20010] @ str '' FDA '' @ [26631, 31614, 29255, 27573, 10, 10]"

definition lit_fda_classes :: jsstring where
  "lit_fda_classes = str ''### '' @ [23433, 20840, 20449, 24687, 20998, 31867, 10]"

definition lit_fda_warnings :: jsstring where
  "lit_fda_warnings = str ''- '' @ [35686, 21578, 20449, 24687] @ str '': ''"

definition lit_fda_adverse :: jsstring where
  "lit_fda_adverse = str ''- '' @ [19981, 33391, 21453, 24212] @ str '': ''"

definition lit_fda_contra :: jsstring where
  "lit_fda_contra = str ''- '' @ [31105, 24524, 30151] @ str '': ''"

definition lit_fda_boxed :: jsstring where
  "lit_fda_boxed = str ''- '' @ [40657, 26694, 35686, 21578] @ str '': ''"

definition lit_items_nlnl :: jsstring where
  "lit_items_nlnl = str '' '' @ [26465, 10, 10]"

definition lit_items_nl :: jsstring where
  "lit_items_nl = str '' '' @ [26465, 10]"

definition lit_fda_important :: jsstring where
  "lit_fda_important = str ''### '' @ [37325, 35201, 23433, 20840, 20449, 24687, 10]"

definition lit_rx_title :: jsstring where
  "lit_rx_title = str ''## RxNav '' @ [33647, 29289, 26415, 35821, 20449, 24687, 10, 10]"

definition lit_rx_fragments :: jsstring where
  "lit_rx_fragments = str '' '' @ [20010] @ str '' RxNav '' @ [26415, 35821, 29255, 27573, 10, 10]"

definition lit_rx_stats :: jsstring where
  "lit_rx_stats = str ''### '' @ [26415, 35821, 20449, 24687, 32479, 35745, 10]"

definition lit_rx_rxcui :: jsstring where
  "lit_rx_rxcui = str ''- RxCUI '' @ [26631, 35782, 31526] @ str '': ''"

definition lit_rx_atc :: jsstring where
  "lit_rx_atc = str ''- ATC '' @ [20998, 31867, 20195, 30721] @ str '': ''"

definition lit_count_nlnl :: jsstring where
  "lit_count_nlnl = str '' '' @ [20010, 10, 10]"

definition lit_count_nl :: jsstring where
  "lit_count_nl = str '' '' @ [20010, 10]"

definition lit_rx_details :: jsstring where
  "lit_rx_details = str ''### '' @ [33647, 29289, 26415, 35821, 35814, 24773, 10]"

definition lit_gen_title :: jsstring where
  "lit_gen_title = str ''## '' @ [20449, 24687, 25688, 35201, 10, 10]"

definition lit_gen_fragments :: jsstring where
  "lit_gen_fragments = str ''**'' @ [30456, 20851, 29255, 27573] @ str ''**: ''"

definition lit_gen_main :: jsstring where
  "lit_gen_main = str ''### '' @ [20027, 35201, 20869, 23481, 10]"

definition lit_not_found :: jsstring where
  "lit_not_found = [26410, 25214, 21040, 19982, 26597, 35810, 30456, 20851, 30340, 20449, 24687, 12290, 26597, 35810] @ str '': ''"

text \<open>\<open>String.prototype.includes\<close>.\<close>

fun includes_str :: "jsstring \<Rightarrow> jsstring \<Rightarrow> bool" where
  "includes_str [] sub = (sub = [])"
| "includes_str (c # cs) sub = (take (length sub) (c # cs) = sub \<or> includes_str cs sub)"

text \<open>
  An optional string is truthy when it is present and not empty;
  \<open>a || b || c || d\<close> is the first truthy one, or the last operand.
\<close>

definition present :: "jsstring option \<Rightarrow> bool" where
  "present v = (case v of Some s \<Rightarrow> s \<noteq> [] | None \<Rightarrow> False)"

definition or_else :: "jsstring option \<Rightarrow> jsstring \<Rightarrow> jsstring" where
  "or_else v d = (case v of Some s \<Rightarrow> if s \<noteq> [] then s else d | None \<Rightarrow> d)"

record summary_context =
  x_query :: "jsstring option"
  x_drug :: "jsstring option"
  x_condition :: "jsstring option"

record summary_options =
  o_source :: jsstring
  o_query :: "jsstring option"
  o_drug :: "jsstring option"
  o_condition :: "jsstring option"
  o_maxLength :: "int option"

text \<open>
  The three header lines that every generator emits for the context fields that
  are truthy: drug, condition (indication), query.
\<close>

definition context_lines :: "summary_context \<Rightarrow> jsstring" where
  "context_lines ctx =
     (if present (x_drug ctx) then lit_drug @ the (x_drug ctx) @ [10] else [])
     @ (if present (x_condition ctx) then lit_cond @ the (x_condition ctx) @ [10] else [])
     @ (if present (x_query ctx) then lit_query @ the (x_query ctx) @ [10] else [])"

text \<open>
  The numbered previews: for each of the first \<open>n\<close> chunks, its index from 1, the
  first \<open>cap\<close> units of its text with newlines replaced by spaces, an ellipsis and
  a blank line.
\<close>

definition preview :: "nat \<Rightarrow> chunk \<Rightarrow> jsstring" where
  "preview cap c = map (\<lambda>u. if u = 10 then 32 else u) (slice (c_text c) 0 (int cap))"

definition previews :: "nat \<Rightarrow> nat \<Rightarrow> chunk list \<Rightarrow> jsstring" where
  "previews n cap chunks =
     concat (map (\<lambda>(idx, c). show_nat (idx + 1) @ str ''. '' @ preview cap c @ str ''...'' @ [10, 10])
               (enumerate 0 (slice chunks 0 (int n))))"

definition yes_no :: "bool \<Rightarrow> jsstring" where
  "yes_no b = (if b then lit_yes else lit_no)"

text \<open>\<open>/[A-Z]\d{2}[A-Z]{2}\d{2}/\<close> at the head of a string.\<close>

definition atc_at :: "jsstring \<Rightarrow> nat option" where
  "atc_at s =
     (if list_all2 (\<lambda>p u. p u)
           [is_upper, is_digit, is_digit, is_upper, is_upper, is_digit, is_digit] (take 7 s)
      then Some 7 else None)"

definition aeKeywords :: "jsstring list" where
  "aeKeywords = [str ''adverse'', str ''side effect'', str ''toxicity'', str ''safety'',
                 lit_ae1, lit_ae2]"

text \<open>
  The size of a \<open>Set\<close> filled from a list is the length of the list without
  duplicates.
\<close>

definition generateClinicalTrialsSummary :: "builtins \<Rightarrow> chunk list \<Rightarrow> summary_context \<Rightarrow> jsstring" where
  "generateClinicalTrialsSummary B chunks ctx =
     (let studyIds = remdups (concat (map (\<lambda>c. match_all nct_at (c_text c)) chunks));
          hasControlComparison =
            list_ex (\<lambda>c. includes_str (toLowerCase B (c_text c)) (str ''placebo'')
                        \<or> includes_str (toLowerCase B (c_text c)) (str ''control'')) chunks;
          adverseEvents =
            filter (\<lambda>keyword. list_ex (\<lambda>c. includes_str (toLowerCase B (c_text c))
                                               (toLowerCase B keyword)) chunks) aeKeywords
      in lit_ct_title
         @ context_lines ctx
         @ lit_source_label @ show_nat (length chunks) @ lit_ct_fragments
         @ lit_key_findings
         @ lit_ct_studies @ show_nat (length studyIds) @ [10]
         @ lit_ct_control @ yes_no hasControlComparison @ [10]
         @ lit_ct_ae @ yes_no (0 < length adverseEvents) @ [10, 10]
         @ lit_ct_evidence
         @ previews 3 200 chunks
         @ lit_ct_advice
         @ lit_ct_based @ show_nat (length chunks) @ lit_ct_advice_tail)"

definition generateOpenFDASummary :: "builtins \<Rightarrow> chunk list \<Rightarrow> summary_context \<Rightarrow> jsstring" where
  "generateOpenFDASummary B chunks ctx =
     (let mentions = (\<lambda>en zh. length (filter (\<lambda>c. includes_str (toLowerCase B (c_text c)) en
                                                   \<or> includes_str (toLowerCase B (c_text c)) zh) chunks));
          warnings = mentions (str ''warning'') lit_zh_warning;
          adverseReactions = mentions (str ''adverse'') lit_zh_adverse;
          contraindications = mentions (str ''contraindication'') lit_zh_contra;
          boxedWarning = mentions (str ''boxed'') lit_zh_boxed
      in lit_fda_title
         @ context_lines ctx
         @ lit_source_label @ show_nat (length chunks) @ lit_fda_fragments
         @ lit_fda_classes
         @ lit_fda_warnings @ show_nat warnings @ lit_items_nl
         @ lit_fda_adverse @ show_nat adverseReactions @ lit_items_nl
         @ lit_fda_contra @ show_nat contraindications @ lit_items_nl
         @ lit_fda_boxed @ show_nat boxedWarning @ lit_items_nlnl
         @ lit_fda_important
         @ previews 3 200 chunks)"

definition generateRxNavSummary :: "chunk list \<Rightarrow> summary_context \<Rightarrow> jsstring" where
  "generateRxNavSummary chunks ctx =
     (let rxcuis = remdups (concat (map (\<lambda>c. List.map_filter first_digits
                                               (match_all rxcui_at (c_text c))) chunks));
          atcCodes = remdups (concat (map (\<lambda>c. match_all atc_at (c_text c)) chunks))
      in lit_rx_title
         @ context_lines ctx
         @ lit_source_label @ show_nat (length chunks) @ lit_rx_fragments
         @ lit_rx_stats
         @ lit_rx_rxcui @ show_nat (length rxcuis) @ lit_count_nl
         @ lit_rx_atc @ show_nat (length atcCodes) @ lit_count_nlnl
         @ lit_rx_details
         @ previews 3 200 chunks)"

definition generateGenericSummary :: "chunk list \<Rightarrow> summary_context \<Rightarrow> jsstring" where
  "generateGenericSummary chunks ctx =
     lit_gen_title
     @ context_lines ctx
     @ lit_gen_fragments @ show_nat (length chunks) @ lit_count_nlnl
     @ lit_gen_main
     @ previews 5 150 chunks"

text \<open>
  \<open>summarizeChunks\<close>: the not-found message for an empty list, returned at once;
  otherwise the summary of the generator chosen by \<open>source\<close>, cut to
  \<open>maxLength - 3\<close> units plus an ellipsis when it is longer than \<open>maxLength\<close>
  (1200 when the option is absent).
\<close>

definition max_length :: "summary_options \<Rightarrow> int" where
  "max_length options = (case o_maxLength options of Some m \<Rightarrow> m | None \<Rightarrow> 1200)"

definition not_found_message :: "summary_options \<Rightarrow> jsstring" where
  "not_found_message options =
     lit_not_found
     @ or_else (o_query options) (or_else (o_drug options) (or_else (o_condition options) (str ''N/A'')))"

definition summarizeChunks :: "builtins \<Rightarrow> chunk list \<Rightarrow> summary_options \<Rightarrow> jsstring" where
  "summarizeChunks B chunks options =
     (let maxLength = max_length options;
          ctx = \<lparr> x_query = o_query options, x_drug = o_drug options,
                  x_condition = o_condition options \<rparr>
      in if length chunks = 0 then not_found_message options
         else
           (let summary =
                  (if o_source options = str ''clinicaltrials''
                     then generateClinicalTrialsSummary B chunks ctx
                   else if o_source options = str ''openfda''
                     then generateOpenFDASummary B chunks ctx
                   else if o_source options = str ''rxnav''
                     then generateRxNavSummary chunks ctx
                   else generateGenericSummary chunks ctx)
            in if maxLength < int (length summary)
               then slice summary 0 (maxLength - 3) @ str ''...''
               else summary))"

text \<open>
  An instance of the two built-ins for the examples: lower-casing of the ASCII
  letters (which is \<open>toLowerCase\<close> on a string whose cased letters are all ASCII),
  and the regular expressions whose pattern is made of ordinary characters and
  \<open>.\<close>, which matches any unit but a line terminator. Any other pattern is
  outside this instance and is answered with \<open>None\<close>.
\<close>

definition is_syntax_char :: "code_unit \<Rightarrow> bool" where
  "is_syntax_char c \<longleftrightarrow> c \<in> {94, 36, 92, 46, 42, 43, 63, 40, 41, 91, 93, 123, 125, 124}"

definition is_line_terminator :: "code_unit \<Rightarrow> bool" where
  "is_line_terminator c \<longleftrightarrow> c = 10 \<or> c = 13 \<or> c = 8232 \<or> c = 8233"

definition unit_matches :: "code_unit \<Rightarrow> code_unit \<Rightarrow> bool" where
  "unit_matches p u = (if p = 46 then \<not> is_line_terminator u else p = u)"

definition pattern_at :: "jsstring \<Rightarrow> jsstring \<Rightarrow> nat option" where
  "pattern_at p s = (if list_all2 unit_matches p (take (length p) s) then Some (length p) else None)"

definition basic_RegExp :: "jsstring \<Rightarrow> (jsstring \<Rightarrow> jsstring list) option" where
  "basic_RegExp p =
     (if list_ex (\<lambda>c. is_syntax_char c \<and> c \<noteq> 46) p then None
      else Some (match_all (pattern_at p)))"

definition basic_builtins :: builtins where
  "basic_builtins = \<lparr> toLowerCase = map ascii_lower, RegExp_g = basic_RegExp \<rparr>"

section \<open>scoreChunkByQuery and rankAndPickTop\<close>

text \<open>
  What a call can throw: the \<open>SyntaxError\<close> of the \<open>RegExp\<close> constructor, a
  \<open>TypeError\<close> on reading a property of \<open>undefined\<close>, and the failure of the
  request to the openFDA service.
\<close>

datatype js_error = SyntaxError | TypeError | RequestFailed

text \<open>
  \<open>split(/\s+/)\<close>: the pieces between the maximal runs of white space; a run at
  the start or at the end of the string leaves an empty piece there.
\<close>

function split_ws :: "jsstring \<Rightarrow> jsstring list" where
  "split_ws s =
     (let piece = takeWhile (\<lambda>c. \<not> is_space c) s;
          rest = dropWhile (\<lambda>c. \<not> is_space c) s
      in if rest = [] then [piece] else piece # split_ws (dropWhile is_space rest))"
  by pat_completeness auto
termination
proof (relation "measure length")
  fix s piece rest
  assume rest: "rest = dropWhile (\<lambda>c. \<not> is_space c) s" and ne: "rest \<noteq> []"
  then have "is_space (hd rest)"
    using hd_dropWhile [of "\<lambda>c. \<not> is_space c" s] by simp
  with ne have "length (dropWhile is_space rest) < length rest"
    by (cases rest) (simp_all add: le_imp_less_Suc length_dropWhile_le)
  moreover have "length rest \<le> length s"
    unfolding rest by (rule length_dropWhile_le)
  ultimately show "(dropWhile is_space rest, s) \<in> measure length" by simp
qed simp

declare split_ws.simps [simp del]

definition allKeywords :: "builtins \<Rightarrow> jsstring \<Rightarrow> jsstring list \<Rightarrow> jsstring list" where
  "allKeywords B query extraKeywords =
     filter (\<lambda>k. 2 < length k)
       (split_ws (toLowerCase B query) @ map (toLowerCase B) extraKeywords)"

text \<open>
  The \<open>for (const keyword of allKeywords)\<close> loop: each keyword is compiled as a
  regular expression (which may throw), its matches in the lower-cased text are
  counted, and a positive count adds \<open>matches * Math.log(1 + keyword.length)\<close>.
\<close>

fun keyword_scores :: "builtins \<Rightarrow> jsstring \<Rightarrow> jsstring list \<Rightarrow> real \<Rightarrow> js_error + real" where
  "keyword_scores B text [] score = Inr score"
| "keyword_scores B text (keyword # rest) score =
     (case RegExp_g B keyword of
        None \<Rightarrow> Inl SyntaxError
      | Some re \<Rightarrow>
          (let matches = length (re text)
           in keyword_scores B text rest
                (if 0 < matches then score + real matches * ln (1 + real (length keyword))
                 else score)))"

text \<open>
  \<open>score / Math.sqrt(text.length)\<close>; the score is never negative, and on an empty
  text the division gives \<open>NaN\<close> for 0 and \<open>Infinity\<close> otherwise.
\<close>

definition div_sqrt :: "real \<Rightarrow> nat \<Rightarrow> jsnum" where
  "div_sqrt score n =
     (if n = 0 then (if score = 0 then NaN else PosInf) else Fin (score / sqrt (real n)))"

definition scoreChunkByQuery ::
  "builtins \<Rightarrow> chunk \<Rightarrow> jsstring \<Rightarrow> jsstring list \<Rightarrow> js_error + jsnum" where
  "scoreChunkByQuery B chunk query extraKeywords =
     (let text = toLowerCase B (c_text chunk);
          queryLower = toLowerCase B query
      in case keyword_scores B text (allKeywords B query extraKeywords) 0 of
           Inl e \<Rightarrow> Inl e
         | Inr score \<Rightarrow>
             Inr (div_sqrt
                    (if includes_str text queryLower then score + real (length queryLower) * 2
                     else score)
                    (length text)))"

text \<open>
  \<open>chunks.map(chunk => ({...chunk, score: ...}))\<close> on values: the copies carry the
  score; the first keyword that does not compile ends the call.
\<close>

fun score_chunks ::
  "builtins \<Rightarrow> chunk list \<Rightarrow> jsstring \<Rightarrow> jsstring list \<Rightarrow> js_error + chunk list" where
  "score_chunks B [] query extraKeywords = Inr []"
| "score_chunks B (chunk # rest) query extraKeywords =
     (case scoreChunkByQuery B chunk query extraKeywords of
        Inl e \<Rightarrow> Inl e
      | Inr s \<Rightarrow>
          (case score_chunks B rest query extraKeywords of
             Inl e \<Rightarrow> Inl e
           | Inr scored \<Rightarrow> Inr (chunk\<lparr>c_score := Some s\<rparr> # scored)))"

text \<open>
  The comparator \<open>(a, b) => (b.score || 0) - (a.score || 0)\<close> orders by
  \<open>score || 0\<close>, which is 0 for a missing score, for 0 and for \<open>NaN\<close>. The
  difference is positive, so that \<open>b\<close> goes first, exactly when the key of \<open>a\<close> is
  less than the key of \<open>b\<close>; \<open>Infinity - Infinity\<close> is \<open>NaN\<close> and counts as a tie.
  \<open>Array.prototype.sort\<close> is stable, so the result is the insertion of each element
  before the first later element that it does not have to follow.
\<close>

definition or_0 :: "jsnum option \<Rightarrow> jsnum" where
  "or_0 v = (case v of None \<Rightarrow> Fin 0 | Some NaN \<Rightarrow> Fin 0 | Some x \<Rightarrow> x)"

fun num_less :: "jsnum \<Rightarrow> jsnum \<Rightarrow> bool" where
  "num_less (Fin a) (Fin b) = (a < b)"
| "num_less (Fin a) PosInf = True"
| "num_less a b = False"

fun insert_desc :: "('a \<Rightarrow> jsnum) \<Rightarrow> 'a \<Rightarrow> 'a list \<Rightarrow> 'a list" where
  "insert_desc key x [] = [x]"
| "insert_desc key x (y # ys) =
     (if num_less (key x) (key y) then y # insert_desc key x ys else x # y # ys)"

definition sort_desc :: "('a \<Rightarrow> jsnum) \<Rightarrow> 'a list \<Rightarrow> 'a list" where
  "sort_desc key xs = foldr (insert_desc key) xs []"

definition rankAndPickTop ::
  "builtins \<Rightarrow> chunk list \<Rightarrow> jsstring \<Rightarrow> int \<Rightarrow> jsstring list \<Rightarrow> js_error + chunk list" where
  "rankAndPickTop B chunks query topK extraKeywords =
     (case score_chunks B chunks query extraKeywords of
        Inl e \<Rightarrow> Inl e
      | Inr scoredChunks \<Rightarrow>
          Inr (slice (sort_desc (\<lambda>c. or_0 (c_score c)) scoredChunks) 0 topK))"

text \<open>Chunks for the evaluations of the scorer and the ranker.\<close>

definition example_warning_chunk :: chunk where
  "example_warning_chunk =
     \<lparr> c_id = str ''a_chunk_0'', c_text = str ''warning warning'', c_source = str ''a'',
       c_metadata = [], c_score = None \<rparr>"

definition example_unrelated_chunk :: chunk where
  "example_unrelated_chunk =
     \<lparr> c_id = str ''b_chunk_0'', c_text = str ''unrelated'', c_source = str ''b'',
       c_metadata = [], c_score = None \<rparr>"

definition example_dose_chunk :: chunk where
  "example_dose_chunk =
     \<lparr> c_id = str ''c_chunk_0'', c_text = str ''take 500 mg daily'', c_source = str ''c'',
       c_metadata = [], c_score = None \<rparr>"

section \<open>rankAndPickTop on a store\<close>

text \<open>
  For the claim that the input is not mutated the objects and arrays of the call
  live in a store: a chunk object and an array each have a reference, an array
  holds the references of its elements, and \<open>next_ref\<close> is the next free reference.
  \<open>{...chunk, score}\<close> allocates a new object, \<open>map\<close> and \<open>slice\<close> allocate a new
  array, and \<open>sort\<close> overwrites the array it is called on.
\<close>

type_synonym ref = nat

record heap =
  objects :: "ref \<Rightarrow> chunk option"
  arrays :: "ref \<Rightarrow> ref list option"
  next_ref :: ref

definition new_object :: "chunk \<Rightarrow> heap \<Rightarrow> ref \<times> heap" where
  "new_object c h =
     (next_ref h, h\<lparr>objects := (objects h)(next_ref h \<mapsto> c), next_ref := Suc (next_ref h)\<rparr>)"

definition new_array :: "ref list \<Rightarrow> heap \<Rightarrow> ref \<times> heap" where
  "new_array elems h =
     (next_ref h, h\<lparr>arrays := (arrays h)(next_ref h \<mapsto> elems), next_ref := Suc (next_ref h)\<rparr>)"

text \<open>
  A store is well formed when nothing lives at or beyond \<open>next_ref\<close> and every
  element of an array is the reference of an object.
\<close>

definition heap_ok :: "heap \<Rightarrow> bool" where
  "heap_ok h \<longleftrightarrow>
     (\<forall>r. next_ref h \<le> r \<longrightarrow> objects h r = None \<and> arrays h r = None)
     \<and> (\<forall>a elems. arrays h a = Some elems \<longrightarrow> (\<forall>r \<in> set elems. objects h r \<noteq> None))"

text \<open>
  The callback of \<open>chunks.map\<close>, element by element: read the chunk, score it,
  allocate the copy with the score.
\<close>

fun map_scored ::
  "builtins \<Rightarrow> jsstring \<Rightarrow> jsstring list \<Rightarrow> ref list \<Rightarrow> heap \<Rightarrow> js_error + (ref list \<times> heap)" where
  "map_scored B query extraKeywords [] h = Inr ([], h)"
| "map_scored B query extraKeywords (r # rs) h =
     (case objects h r of
        None \<Rightarrow> Inl TypeError
      | Some chunk \<Rightarrow>
          (case scoreChunkByQuery B chunk query extraKeywords of
             Inl e \<Rightarrow> Inl e
           | Inr s \<Rightarrow>
               (case new_object (chunk\<lparr>c_score := Some s\<rparr>) h of
                  (r', h') \<Rightarrow>
                    (case map_scored B query extraKeywords rs h' of
                       Inl e \<Rightarrow> Inl e
                     | Inr (rs', h'') \<Rightarrow> Inr (r' # rs', h'')))))"

definition score_at :: "heap \<Rightarrow> ref \<Rightarrow> jsnum" where
  "score_at h r = (case objects h r of Some c \<Rightarrow> or_0 (c_score c) | None \<Rightarrow> Fin 0)"

definition rankAndPickTop_heap ::
  "builtins \<Rightarrow> heap \<Rightarrow> ref \<Rightarrow> jsstring \<Rightarrow> int \<Rightarrow> jsstring list \<Rightarrow> js_error + (ref \<times> heap)" where
  "rankAndPickTop_heap B h chunks query topK extraKeywords =
     (case arrays h chunks of
        None \<Rightarrow> Inl TypeError
      | Some elems \<Rightarrow>
          (case map_scored B query extraKeywords elems h of
             Inl e \<Rightarrow> Inl e
           | Inr (scored, h1) \<Rightarrow>
               (case new_array scored h1 of
                  (scoredChunks, h2) \<Rightarrow>
                    (let h3 = h2\<lparr>arrays := (arrays h2)(scoredChunks \<mapsto> sort_desc (score_at h2) scored)\<rparr>
                     in Inr (new_array (slice (sort_desc (score_at h2) scored) 0 topK) h3)))))"

text \<open>A store with the two example chunks at 0 and 1 and the input array at 2.\<close>

definition example_heap :: heap where
  "example_heap =
     \<lparr> objects = [0 \<mapsto> example_warning_chunk, 1 \<mapsto> example_unrelated_chunk],
       arrays = [2 \<mapsto> [0, 1]],
       next_ref = 3 \<rparr>"

section \<open>The pipeline (index.ts, aePipelineRag)\<close>

text \<open>
  A label returned by openFDA, with the fields the pipeline reads. A section is an
  array of strings or a single string. A missing \<open>openfda\<close> object is a label whose
  four \<open>openfda\<close> fields are absent.
\<close>

datatype label_section = Lines "jsstring list" | Plain jsstring

record label =
  l_id :: "jsstring option"
  l_brand_name :: "jsstring list option"
  l_generic_name :: "jsstring list option"
  l_manufacturer_name :: "jsstring list option"
  l_spl_id :: "jsstring list option"
  l_indications_and_usage :: "label_section option"
  l_dosage_and_administration :: "label_section option"
  l_contraindications :: "label_section option"
  l_warnings :: "label_section option"
  l_boxed_warning :: "label_section option"
  l_precautions :: "label_section option"
  l_adverse_reactions :: "label_section option"
  l_drug_interactions :: "label_section option"

record search_params =
  sp_search :: "jsstring option"
  sp_limit :: int
  sp_skip :: int

record rag_params =
  p_query :: "jsstring option"
  p_drug :: "jsstring option"
  p_condition :: "jsstring option"
  p_top_k :: int
  p_filters_limit :: "int option"

record rag_result =
  r_source :: jsstring
  r_query :: "jsstring option"
  r_drug :: "jsstring option"
  r_condition :: "jsstring option"
  r_top_chunks :: "chunk list"
  r_summary :: jsstring
  r_citations :: "citation list"

text \<open>
  What the pipeline takes from outside: the request to openFDA (\<open>makeRequest\<close>: it
  fails, or gives the \<open>results\<close> array of the response, which may be missing) and
  the string that \<open>Math.random().toString(36).substr(2, 9)\<close> gives for the label at
  a position of that array.
\<close>

record world =
  makeRequest :: "search_params \<Rightarrow> js_error + label list option"
  random_id :: "nat \<Rightarrow> jsstring"

datatype mcp_error = McpInternalError js_error

text \<open>
  What a call of the pipeline does: the requests it sent, in order, and how it
  ended. \<open>None\<close> is a call that never returns, \<open>Inl\<close> the \<open>McpError\<close> thrown by the
  \<open>catch\<close> block, \<open>Inr\<close> the result bundle (the object that is passed to
  \<open>JSON.stringify\<close>; the serialisation is left out).
\<close>

record run =
  requests :: "search_params list"
  outcome :: "(mcp_error + rag_result) option"

text \<open>\<open>Array.prototype.join\<close> on strings.\<close>

fun join :: "jsstring \<Rightarrow> jsstring list \<Rightarrow> jsstring" where
  "join sep [] = []"
| "join sep [x] = x"
| "join sep (x # y # ys) = x @ sep @ join sep (y # ys)"

text \<open>\<open>xs?.[0]\<close> of an optional array of strings.\<close>

definition first_of :: "jsstring list option \<Rightarrow> jsstring option" where
  "first_of xs = (case xs of Some (x # _) \<Rightarrow> Some x | _ \<Rightarrow> None)"

definition section_truthy :: "label_section option \<Rightarrow> bool" where
  "section_truthy s = (case s of None \<Rightarrow> False | Some (Lines _) \<Rightarrow> True | Some (Plain p) \<Rightarrow> p \<noteq> [])"

definition section_part :: "jsstring \<Rightarrow> label_section option \<Rightarrow> jsstring list" where
  "section_part title s =
     (case s of
        Some (Lines ls) \<Rightarrow> [title, join [10] ls]
      | Some (Plain p) \<Rightarrow> (if p \<noteq> [] then [title, p] else [])
      | None \<Rightarrow> [])"

definition extractLabelText :: "label \<Rightarrow> jsstring" where
  "extractLabelText l =
     (let drugName = or_else (first_of (l_brand_name l))
                       (or_else (first_of (l_generic_name l)) (str ''Unknown Drug''));
          manufacturer = or_else (first_of (l_manufacturer_name l)) (str ''Unknown Manufacturer'')
      in join [10, 10]
           ([str ''Drug: '' @ drugName, str ''Manufacturer: '' @ manufacturer]
            @ section_part (str ''=== INDICATIONS AND USAGE ==='') (l_indications_and_usage l)
            @ section_part (str ''=== DOSAGE AND ADMINISTRATION ==='') (l_dosage_and_administration l)
            @ section_part (str ''=== CONTRAINDICATIONS ==='') (l_contraindications l)
            @ section_part (str ''=== WARNINGS ==='') (l_warnings l)
            @ section_part (str ''=== BOXED WARNING ==='') (l_boxed_warning l)
            @ section_part (str ''=== PRECAUTIONS ==='') (l_precautions l)
            @ section_part (str ''=== ADVERSE REACTIONS ==='') (l_adverse_reactions l)
            @ section_part (str ''=== DRUG INTERACTIONS ==='') (l_drug_interactions l)))"

text \<open>
  Step 1: the search terms for the drug, the condition and the words of the query
  longer than two characters, joined by \<open>AND\<close>; \<open>None\<close> when there is no term and
  no drug.
\<close>

definition searchTerms :: "rag_params \<Rightarrow> jsstring list" where
  "searchTerms params =
     (if present (p_drug params)
      then [str ''openfda.brand_name:'' @ [34] @ the (p_drug params) @ [34]
            @ str '' OR openfda.generic_name:'' @ [34] @ the (p_drug params) @ [34]
            @ str '' OR openfda.substance_name:'' @ [34] @ the (p_drug params) @ [34]]
      else [])
     @ (if present (p_condition params)
        then [str ''indications_and_usage:'' @ [34] @ the (p_condition params) @ [34]]
        else [])
     @ (if present (p_query params)
        then (let queryWords = filter (\<lambda>w. 2 < length w) (split_ws (the (p_query params)))
              in if 0 < length queryWords then [join (str '' AND '') queryWords] else [])
        else [])"

definition search_expression :: "rag_params \<Rightarrow> jsstring option" where
  "search_expression params =
     (if 0 < length (searchTerms params) then Some (join (str '' AND '') (searchTerms params))
      else if present (p_drug params) then p_drug params
      else None)"

definition empty_result :: "rag_params \<Rightarrow> jsstring \<Rightarrow> rag_result" where
  "empty_result params summary =
     \<lparr> r_source = str ''openfda'', r_query = p_query params, r_drug = p_drug params,
       r_condition = p_condition params, r_top_chunks = [], r_summary = summary,
       r_citations = [] \<rparr>"

text \<open>
  The two fixed summaries: the request for a drug name or a query (returned when
  there is nothing to search for), and the notice that no label matched.
\<close>

definition prompt_for_input :: jsstring where
  "prompt_for_input = [35831, 25552, 20379, 33647, 29289, 21517, 31216, 25110, 20855, 20307, 26597, 35810, 26465, 20214, 20197, 33719, 21462] @ str '' FDA '' @ [26631, 31614, 20449, 24687, 12290]"

definition no_match :: jsstring where
  "no_match = [26410, 25214, 21040, 21305, 37197, 30340] @ str '' FDA '' @ [33647, 29289, 26631, 31614, 25968, 25454, 12290, 35831, 23581, 35797, 35843, 25972, 25628, 32034, 26465, 20214, 12290]"

text \<open>Step 3: the chunks of every label whose text is not blank, pooled in order.\<close>

definition label_metadata :: "label \<Rightarrow> metadata" where
  "label_metadata l =
     [(str ''drugName'', JStr (or_else (first_of (l_brand_name l))
                                (or_else (first_of (l_generic_name l)) (str ''Unknown Drug'')))),
      (str ''manufacturer'', (case first_of (l_manufacturer_name l) of
                                Some m \<Rightarrow> JStr m | None \<Rightarrow> JUndefined)),
      (str ''type'', JStr (str ''fda_label'')),
      (str ''hasWarnings'', JBool (section_truthy (l_warnings l) \<or> section_truthy (l_boxed_warning l))),
      (str ''hasAdverseReactions'', JBool (section_truthy (l_adverse_reactions l)))]"

fun label_chunks :: "world \<Rightarrow> nat \<Rightarrow> label list \<Rightarrow> chunk list option" where
  "label_chunks w i [] = Some []"
| "label_chunks w i (l # rest) =
     (let labelText = extractLabelText l
      in if 0 < length (trim labelText)
         then (let labelId = or_else (l_id l)
                               (or_else (first_of (l_spl_id l)) (str ''label_'' @ random_id w i))
               in case chunkText labelText 1000 200 labelId (label_metadata l) of
                    None \<Rightarrow> None
                  | Some chunks \<Rightarrow>
                      (case label_chunks w (i + 1) rest of
                         None \<Rightarrow> None
                       | Some others \<Rightarrow> Some (chunks @ others)))
         else label_chunks w (i + 1) rest)"

definition boost_keywords :: "jsstring list" where
  "boost_keywords =
     [str ''adverse reactions'', str ''side effects'', str ''warnings'', str ''contraindications'',
      str ''boxed warning'', str ''precautions'', str ''safety'', str ''toxicity'',
      [19981, 33391, 21453, 24212], [21103, 20316, 29992], [35686, 21578],
      [31105, 24524, 30151], [23433, 20840, 24615]]"

definition preview_chunk :: "chunk \<Rightarrow> chunk" where
  "preview_chunk c =
     c\<lparr>c_text := (if 1200 < length (c_text c) then slice (c_text c) 0 1200 @ str ''...''
                   else c_text c)\<rparr>"

text \<open>
  Steps 4 to 8 on the pooled chunks. A \<open>SyntaxError\<close> from the ranking is caught by
  the \<open>catch\<close> block and rethrown as an \<open>McpError\<close>.
\<close>

definition rank_and_report :: "builtins \<Rightarrow> rag_params \<Rightarrow> chunk list \<Rightarrow> mcp_error + rag_result" where
  "rank_and_report B params allChunks =
     (let queryText = join (str '' '')
                        (map the (filter present [p_query params, p_drug params, p_condition params]))
      in case rankAndPickTop B allChunks queryText (p_top_k params) boost_keywords of
           Inl e \<Rightarrow> Inl (McpInternalError e)
         | Inr topChunks \<Rightarrow>
             Inr \<lparr> r_source = str ''openfda'', r_query = p_query params, r_drug = p_drug params,
                   r_condition = p_condition params,
                   r_top_chunks = map preview_chunk topChunks,
                   r_summary = summarizeChunks B topChunks
                     \<lparr> o_source = str ''openfda'', o_query = p_query params,
                       o_drug = p_drug params, o_condition = p_condition params,
                       o_maxLength = Some 1200 \<rparr>,
                   r_citations = extractCitations topChunks \<rparr>)"

definition aePipelineRag :: "builtins \<Rightarrow> world \<Rightarrow> rag_params \<Rightarrow> run" where
  "aePipelineRag B w params =
     (let limit = (case p_filters_limit params of
                     Some n \<Rightarrow> if n \<noteq> 0 then n else 50 | None \<Rightarrow> 50)
      in case search_expression params of
           None \<Rightarrow>
             \<lparr> requests = [],
               outcome = Some (Inr (empty_result params prompt_for_input)) \<rparr>
         | Some search \<Rightarrow>
             (let searchParams = \<lparr> sp_search = Some search, sp_limit = limit, sp_skip = 0 \<rparr>
              in \<lparr> requests = [searchParams],
                   outcome =
                     (case makeRequest w searchParams of
                        Inl e \<Rightarrow> Some (Inl (McpInternalError e))
                      | Inr None \<Rightarrow> Some (Inr (empty_result params no_match))
                      | Inr (Some results) \<Rightarrow>
                          (if length results = 0 then Some (Inr (empty_result params no_match))
                           else (case label_chunks w 0 results of
                                   None \<Rightarrow> None
                                 | Some allChunks \<Rightarrow> Some (rank_and_report B params allChunks)))) \<rparr>))"

text \<open>
  For the evaluation: a call with no criteria, in a world where every request fails.
\<close>

definition no_criteria :: rag_params where
  "no_criteria = \<lparr> p_query = None, p_drug = None, p_condition = None, p_top_k = 5,
                   p_filters_limit = Some 50 \<rparr>"

definition offline_world :: world where
  "offline_world = \<lparr> makeRequest = (\<lambda>p. Inl RequestFailed), random_id = (\<lambda>i. str ''x'') \<rparr>"


section \<open>Verification: strings\<close>

lemma length_str [simp]: "length (str s) = length s"
  by (simp add: str_def)

lemma length_slice_le: "length (slice xs b e) \<le> length xs"
  by (simp add: slice_def Let_def)

lemma slice_in_range:
  "0 \<le> b \<Longrightarrow> b \<le> e \<Longrightarrow> e \<le> int (length xs) \<Longrightarrow>
     slice xs b e = take (nat (e - b)) (drop (nat b) xs)"
  by (auto simp add: slice_def slice_index_def Let_def min_def nat_diff_distrib nat_le_iff)

lemma length_slice_in_range:
  "0 \<le> b \<Longrightarrow> b \<le> e \<Longrightarrow> e \<le> int (length xs) \<Longrightarrow> int (length (slice xs b e)) = e - b"
  by (simp add: slice_in_range)

lemma lastIndexOf_lower: "- 1 \<le> lastIndexOf xs c"
proof -
  have "length (takeWhile (\<lambda>x. x \<noteq> c) (rev xs)) \<le> length xs"
    using length_takeWhile_le [of "\<lambda>x. x \<noteq> c" "rev xs"] by simp
  then show ?thesis by (simp add: lastIndexOf_def)
qed

lemma lastIndexOf_upper: "lastIndexOf xs c < int (length xs)"
  by (simp add: lastIndexOf_def)

lemma length_trim_le: "length (trim s) \<le> length s"
proof -
  have "length (trim s) \<le> length (dropWhile is_space s)"
    using length_dropWhile_le [of is_space "rev (dropWhile is_space s)"] by (simp add: trim_def)
  also have "\<dots> \<le> length s" by (rule length_dropWhile_le)
  finally show ?thesis .
qed

section \<open>Verification: the double product\<close>

text \<open>
  \<open>double_0_7\<close> is a 53-bit significand, and \<open>double_0_7 / 2 ^ 53\<close> lies within half
  a unit in the last place of seven tenths: it is the double that \<open>0.7\<close> denotes.
\<close>

lemma double_0_7_nearest:
  "2 ^ 52 \<le> double_0_7 \<and> double_0_7 < 2 ^ 53
   \<and> \<bar>10 * int double_0_7 - 7 * 2 ^ 53\<bar> < 5"
  by (simp add: double_0_7_def)

lemma shift53_0: "n < 2 ^ 53 \<Longrightarrow> shift53 n = 0"
  by (subst shift53.simps) (simp only: if_True)

lemma shift53_Suc: "\<not> n < 2 ^ 53 \<Longrightarrow> shift53 n = Suc (shift53 (n div 2))"
  by (subst shift53.simps) (simp only: if_False)

lemma times_0_7_of_10: "times_0_7 10 = 7 * 2 ^ 53"
  by (simp add: times_0_7_def double_0_7_def round53_def shift53_0 shift53_Suc
        round_half_even_def Let_def)

lemma times_0_7_of_90: "times_0_7 90 = 567453553048682432"
  by (simp add: times_0_7_def double_0_7_def round53_def shift53_0 shift53_Suc
        round_half_even_def Let_def)

lemma times_0_7_of_1000: "times_0_7 1000 = 700 * 2 ^ 53"
  by (simp add: times_0_7_def double_0_7_def round53_def shift53_0 shift53_Suc
        round_half_even_def Let_def)

text \<open>
  At \<open>chunkSize = 90\<close> the double product is below 63 although seven tenths of 90 is
  63: a break point at index 63 passes the test of the source.
\<close>

lemma times_0_7_of_90_below_63:
  "times_0_7 90 < 63 * 2 ^ 53 \<and> \<not> 7 * (90::int) < 10 * 63"
  by (simp add: times_0_7_of_90)

text \<open>
  \<open>shift53 n\<close> is the least shift that leaves at most 53 bits, a number below 53 bits
  is not rounded at all, and \<open>round53 n\<close> is a multiple of \<open>2 ^ shift53 n\<close> at most
  half that unit away from \<open>n\<close>.
\<close>

lemma shift53_le: "n < 2 ^ (53 + k) \<Longrightarrow> shift53 n \<le> k"
proof (induction k arbitrary: n)
  case 0
  then show ?case by (simp add: shift53_0)
next
  case (Suc k)
  show ?case
  proof (cases "n < 2 ^ 53")
    case True
    then show ?thesis by (simp add: shift53_0)
  next
    case False
    have "(2::nat) ^ (53 + Suc k) = 2 * 2 ^ (53 + k)" by (simp only: add_Suc_right power_Suc)
    then have "n < 2 * 2 ^ (53 + k)" using Suc.prems by (simp only:)
    then have "n div 2 < 2 ^ (53 + k)" by linarith
    then have "shift53 (n div 2) \<le> k" by (rule Suc.IH)
    with False show ?thesis by (simp add: shift53_Suc)
  qed
qed

lemma shift53_fits: "n div 2 ^ shift53 n < 2 ^ 53"
proof (induction n rule: shift53.induct)
  case (1 n)
  show ?case
  proof (cases "n < 2 ^ 53")
    case True
    then show ?thesis by (simp add: shift53_0)
  next
    case False
    have "n div 2 ^ Suc (shift53 (n div 2)) = n div 2 div 2 ^ shift53 (n div 2)"
      by (simp only: power_Suc div_mult2_eq)
    moreover have "shift53 n = Suc (shift53 (n div 2))" using False by (rule shift53_Suc)
    ultimately show ?thesis using 1 [OF False] by simp
  qed
qed

lemma shift53_least: "0 < shift53 n \<Longrightarrow> 2 ^ 52 \<le> n div 2 ^ shift53 n"
proof (induction n rule: shift53.induct)
  case (1 n)
  from "1.prems" have big: "\<not> n < 2 ^ 53" by (auto simp: shift53_0)
  have e: "n div 2 ^ shift53 n = n div 2 div 2 ^ shift53 (n div 2)"
    by (simp only: shift53_Suc [OF big] power_Suc div_mult2_eq)
  show ?case
  proof (cases "n div 2 < 2 ^ 53")
    case True
    have "2 ^ 52 \<le> n div 2" using big by simp
    with True show ?thesis by (simp add: e shift53_0)
  next
    case False
    then have "0 < shift53 (n div 2)" by (simp add: shift53_Suc)
    from 1(1) [OF big this] show ?thesis by (simp only: e)
  qed
qed

lemma round53_exact: "n < 2 ^ 53 \<Longrightarrow> round53 n = n"
  by (simp add: round53_def shift53_0 round_half_even_def)

lemma round_half_even_lower: "2 * n \<le> 2 * (round_half_even n s * 2 ^ s) + 2 ^ s"
proof -
  define P :: nat where "P = 2 ^ s"
  define q where "q = n div P"
  define r where "r = n mod P"
  define f where "f = round_half_even n s"
  define A where "A = q * P"
  define B where "B = f * P"
  have n: "n = A + r" unfolding A_def q_def r_def by (rule div_mult_mod_eq [symmetric])
  have f: "f = (if 2 * r < P then q else if P < 2 * r then q + 1 else if even q then q else q + 1)"
    unfolding f_def round_half_even_def Let_def q_def r_def P_def ..
  have "q \<le> f" by (simp add: f)
  then have AB: "A \<le> B" unfolding A_def B_def by (rule mult_le_mono1)
  have "2 * n \<le> 2 * B + P"
  proof (cases "P < 2 * r")
    case True
    then have "f = q + 1" by (simp add: f)
    then have "B = A + P" by (simp add: A_def B_def)
    moreover have "r < P" unfolding r_def P_def by simp
    ultimately show ?thesis using n by linarith
  next
    case False
    then show ?thesis using n AB by linarith
  qed
  then show ?thesis unfolding B_def f_def P_def .
qed

lemma round_half_even_upper: "2 * (round_half_even n s * 2 ^ s) \<le> 2 * n + 2 ^ s"
proof -
  define P :: nat where "P = 2 ^ s"
  define q where "q = n div P"
  define r where "r = n mod P"
  define f where "f = round_half_even n s"
  define A where "A = q * P"
  define B where "B = f * P"
  have n: "n = A + r" unfolding A_def q_def r_def by (rule div_mult_mod_eq [symmetric])
  have f: "f = (if 2 * r < P then q else if P < 2 * r then q + 1 else if even q then q else q + 1)"
    unfolding f_def round_half_even_def Let_def q_def r_def P_def ..
  have "2 * B \<le> 2 * n + P"
  proof (cases "2 * r < P")
    case True
    then have "f = q" by (simp add: f)
    then have "B = A" by (simp add: A_def B_def)
    then show ?thesis using n by linarith
  next
    case False
    have "f \<le> q + 1" by (simp add: f)
    then have "f * P \<le> (q + 1) * P" by (rule mult_le_mono1)
    then have "B \<le> A + P" by (simp add: A_def B_def)
    then show ?thesis using n False by linarith
  qed
  then show ?thesis unfolding B_def f_def P_def .
qed

lemma round53_nearest:
  "2 * n \<le> 2 * round53 n + 2 ^ shift53 n \<and> 2 * round53 n \<le> 2 * n + 2 ^ shift53 n"
  unfolding round53_def using round_half_even_lower round_half_even_upper by blast

text \<open>
  For a positive \<open>chunkSize\<close> below \<open>2 ^ 53\<close> the double \<open>chunkSize * 0.7\<close> is less
  than one below seven tenths of \<open>chunkSize\<close>, so an integer break point greater than
  the double leaves more than 70 percent of \<open>chunkSize\<close> once the character at the
  break point is counted.
\<close>

lemma times_0_7_bound:
  assumes c: "0 < c" "c < 2 ^ 53" and e: "times_0_7 c < breakPoint * 2 ^ 53"
  shows "7 * c < 10 * (breakPoint + 1)"
proof -
  define n where "n = nat c * double_0_7"
  define R where "R = round53 n"
  define S :: nat where "S = 2 ^ shift53 n"
  have "nat c < 2 ^ 53" using c by (simp add: nat_less_iff)
  moreover have "double_0_7 < 2 ^ 53" by (simp add: double_0_7_def)
  ultimately have "nat c * double_0_7 < 2 ^ 53 * 2 ^ 53"
    by (rule mult_strict_mono) simp_all
  then have "n < 2 ^ (53 + 53)" by (simp only: n_def power_add)
  then have "shift53 n \<le> 53" by (rule shift53_le)
  then have "(2::nat) ^ shift53 n \<le> 2 ^ 53" by (rule power_increasing) simp
  then have S: "S \<le> 9007199254740992" by (simp add: S_def)
  have "2 * n \<le> 2 * R + S"
    unfolding R_def round53_def S_def by (rule round_half_even_lower)
  with S have "2 * n \<le> 2 * R + 9007199254740992" by linarith
  then have 1: "2 * int n \<le> 2 * int R + 9007199254740992" by linarith
  have "int n = int (nat c) * 6305039478318694"
    unfolding n_def double_0_7_def by (simp only: of_nat_mult of_nat_numeral)
  then have 2: "int n = c * 6305039478318694" using c by simp
  have "times_0_7 c = int R" using c by (simp add: times_0_7_def R_def n_def)
  then have "int R < breakPoint * 2 ^ 53" using e by simp
  then have 3: "int R + 1 \<le> breakPoint * 9007199254740992" by simp
  have 4: "c < 9007199254740992" using c by simp
  have "False" if "10 * breakPoint + 10 \<le> 7 * c"
    using 1 2 3 4 that by linarith
  then show ?thesis by fastforce
qed

section \<open>Verification: chunkText\<close>

lemma str_keys_distinct [simp]:
  "str ''end'' \<noteq> str ''start''" "str ''start'' \<noteq> str ''end''"
  "str ''chunkIndex'' \<noteq> str ''start''" "str ''chunkIndex'' \<noteq> str ''end''"
  by (simp_all add: str_def)

lemma meta_num_make_chunk_start [simp]:
  "meta_num (make_chunk sourceId metadata chunkIndex start ct) ''start'' = Some start"
  by (simp add: meta_num_def make_chunk_def update_conv')

lemma meta_num_make_chunk_end [simp]:
  "meta_num (make_chunk sourceId metadata chunkIndex start ct) ''end'' = Some (start + int (length ct))"
  by (simp add: meta_num_def make_chunk_def update_conv')

text \<open>
  The chunk just pushed records the cursor it was cut at, so the guard of the loop
  compares the advanced cursor with the cursor before the advance.
\<close>

lemma chunk_step_eq:
  "chunk_step text chunkSize overlap sourceId metadata start chunkIndex chunks =
     (let ct = chunk_window text chunkSize start
      in (if int (length ct) \<le> overlap then start + chunkSize else start + int (length ct) - overlap,
          chunks @ [make_chunk sourceId metadata chunkIndex start ct]))"
  by (simp add: chunk_step_def Let_def)

lemma loop_unfold:
  "start < int (length text) \<Longrightarrow>
   chunk_loop text chunkSize overlap sourceId metadata start chunkIndex chunks =
     chunk_loop text chunkSize overlap sourceId metadata
       (fst (chunk_step text chunkSize overlap sourceId metadata start chunkIndex chunks)) (chunkIndex + 1)
       (snd (chunk_step text chunkSize overlap sourceId metadata start chunkIndex chunks))"
  "\<not> start < int (length text) \<Longrightarrow>
   chunk_loop text chunkSize overlap sourceId metadata start chunkIndex chunks = Some chunks"
  by (subst chunk_loop.simps, simp add: split_beta)+

text \<open>
  The untrimmed text of a chunk cut at an in-range cursor is a prefix of the rest of
  the text, at most \<open>chunkSize\<close> long; it reaches the end of the text when the window
  does, and keeps more than 70 percent of \<open>chunkSize\<close> when the window does not and
  \<open>chunkSize\<close> is below \<open>2 ^ 53\<close>.
\<close>

lemma window_cases:
  assumes "0 \<le> start" "start < int (length text)" "0 < chunkSize"
  shows "\<exists>n. chunk_window text chunkSize start = take n (drop (nat start) text)
           \<and> int n \<le> chunkSize \<and> start + int n \<le> int (length text)
           \<and> (start + chunkSize < int (length text) \<and> chunkSize < 2 ^ 53
                \<longrightarrow> 7 * chunkSize < 10 * int n)
           \<and> (int (length text) \<le> start + chunkSize \<longrightarrow> start + int n = int (length text))"
proof -
  define end_pos where "end_pos = min (start + chunkSize) (int (length text))"
  define ct where "ct = slice text start end_pos"
  have ep: "start \<le> end_pos" "end_pos \<le> int (length text)"
    using assms by (simp_all add: end_pos_def)
  have ct: "ct = take (nat (end_pos - start)) (drop (nat start) text)"
    unfolding ct_def using assms ep by (simp add: slice_in_range)
  have lct: "int (length ct) = end_pos - start"
    unfolding ct_def using assms ep by (simp add: length_slice_in_range)
  define bp where "bp = max (lastIndexOf ct 46) (lastIndexOf ct 10)"
  have bp: "- 1 \<le> bp" "bp < int (length ct)"
    using lastIndexOf_lower [of ct 46] lastIndexOf_upper [of ct 46] lastIndexOf_upper [of ct 10]
    by (simp_all add: bp_def)
  have w: "chunk_window text chunkSize start =
      (if end_pos < int (length text)
       then (if times_0_7 chunkSize < bp * 2 ^ 53 then slice ct 0 (bp + 1) else ct) else ct)"
    by (simp only: chunk_window_def Let_def end_pos_def ct_def bp_def)
  show ?thesis
  proof (cases "end_pos < int (length text) \<and> times_0_7 chunkSize < bp * 2 ^ 53")
    case True
    then have e: "end_pos = start + chunkSize" by (auto simp: end_pos_def)
    have "slice ct 0 (bp + 1) = take (nat (bp + 1)) ct"
      using bp by (simp add: slice_in_range)
    also have "\<dots> = take (nat (bp + 1)) (drop (nat start) text)"
      using bp lct by (simp add: ct min_def)
    finally have "chunk_window text chunkSize start = take (nat (bp + 1)) (drop (nat start) text)"
      using True w by simp
    moreover have "int (nat (bp + 1)) \<le> chunkSize" using bp lct e by simp
    moreover have "start + int (nat (bp + 1)) \<le> int (length text)" using bp lct ep by simp
    moreover have "7 * chunkSize < 10 * int (nat (bp + 1))" if "chunkSize < 2 ^ 53"
    proof -
      from True have "times_0_7 chunkSize < bp * 2 ^ 53" by (rule conjunct2)
      with assms(3) that have "7 * chunkSize < 10 * (bp + 1)" by (rule times_0_7_bound)
      then show ?thesis using bp by simp
    qed
    moreover have "\<not> int (length text) \<le> start + chunkSize" using True e by simp
    ultimately show ?thesis by blast
  next
    case False
    then have "chunk_window text chunkSize start = take (nat (end_pos - start)) (drop (nat start) text)"
      using w ct by auto
    moreover have "int (nat (end_pos - start)) \<le> chunkSize" using ep by (simp add: end_pos_def)
    moreover have "start + int (nat (end_pos - start)) \<le> int (length text)" using ep by simp
    moreover have "start + chunkSize < int (length text) \<and> chunkSize < 2 ^ 53
        \<longrightarrow> 7 * chunkSize < 10 * int (nat (end_pos - start))"
      using assms by (simp add: end_pos_def)
    moreover have "int (length text) \<le> start + chunkSize \<longrightarrow> start + int (nat (end_pos - start)) = int (length text)"
      using assms by (simp add: end_pos_def)
    ultimately show ?thesis by blast
  qed
qed

lemma window_facts:
  assumes "0 \<le> start" "start < int (length text)" "0 < chunkSize"
  defines "w \<equiv> chunk_window text chunkSize start"
  shows "int (length w) \<le> chunkSize"
    and "start + int (length w) \<le> int (length text)"
    and "w = slice text start (start + int (length w))"
    and "start + chunkSize < int (length text) \<Longrightarrow> chunkSize < 2 ^ 53
           \<Longrightarrow> 7 * chunkSize < 10 * int (length w)"
    and "int (length text) \<le> start + chunkSize \<Longrightarrow> start + int (length w) = int (length text)"
proof -
  obtain n where n: "w = take n (drop (nat start) text)" "int n \<le> chunkSize"
      "start + int n \<le> int (length text)"
      "start + chunkSize < int (length text) \<and> chunkSize < 2 ^ 53 \<longrightarrow> 7 * chunkSize < 10 * int n"
      "int (length text) \<le> start + chunkSize \<longrightarrow> start + int n = int (length text)"
    using window_cases [OF assms(1-3)] unfolding w_def by blast
  have len: "length w = n" using n(1,3) assms by (simp add: min_def) linarith
  show "int (length w) \<le> chunkSize" using n len by simp
  show "start + int (length w) \<le> int (length text)" using n len by simp
  show "w = slice text start (start + int (length w))"
    using n assms by (simp add: len slice_in_range)
  show "start + chunkSize < int (length text) \<Longrightarrow> chunkSize < 2 ^ 53
           \<Longrightarrow> 7 * chunkSize < 10 * int (length w)"
    using n(4) len by simp
  show "int (length text) \<le> start + chunkSize \<Longrightarrow> start + int (length w) = int (length text)"
    using n len by simp
qed

lemma chunk_step_advances:
  assumes "0 \<le> overlap" "overlap < chunkSize"
  shows "start < fst (chunk_step text chunkSize overlap sourceId metadata start chunkIndex chunks)"
  using assms by (simp add: chunk_step_eq Let_def)

text \<open>
  An invariant rule for the loop under \<open>0 \<le> overlap < chunkSize\<close>: every pass moves
  the cursor forward by at least one, so the loop returns, and an invariant that
  each pass keeps holds of what it returns.
\<close>

lemma chunk_loop_rule:
  assumes par: "0 \<le> overlap" "overlap < chunkSize"
    and step: "\<And>s i cs. 0 \<le> s \<Longrightarrow> s < int (length text) \<Longrightarrow> I s i cs \<Longrightarrow>
        I (fst (chunk_step text chunkSize overlap sourceId metadata s i cs)) (Suc i)
          (snd (chunk_step text chunkSize overlap sourceId metadata s i cs))"
    and init: "0 \<le> start" "I start idx chunks"
  shows "\<exists>cs s i. chunk_loop text chunkSize overlap sourceId metadata start idx chunks = Some cs
            \<and> int (length text) \<le> s \<and> I s i cs"
  using init
proof (induction "nat (int (length text) - start)" arbitrary: start idx chunks rule: less_induct)
  case less
  show ?case
  proof (cases "start < int (length text)")
    case False
    then have "chunk_loop text chunkSize overlap sourceId metadata start idx chunks = Some chunks"
      by (simp add: loop_unfold)
    with False less.prems show ?thesis by (intro exI [of _ chunks] exI [of _ start] exI [of _ idx]) simp
  next
    case True
    define r where "r = chunk_step text chunkSize overlap sourceId metadata start idx chunks"
    have adv: "start < fst r"
      unfolding r_def by (rule chunk_step_advances [OF par])
    have inv: "I (fst r) (Suc idx) (snd r)"
      unfolding r_def using less.prems True by (intro step)
    have "nat (int (length text) - fst r) < nat (int (length text) - start)"
      using adv True by simp
    from less.hyps [OF this _ inv] adv less.prems(1)
    obtain cs s i where
      "chunk_loop text chunkSize overlap sourceId metadata (fst r) (Suc idx) (snd r) = Some cs"
      "int (length text) \<le> s" "I s i cs"
      by auto
    moreover have "chunk_loop text chunkSize overlap sourceId metadata start idx chunks =
        chunk_loop text chunkSize overlap sourceId metadata (fst r) (Suc idx) (snd r)"
      using True by (simp add: loop_unfold r_def)
    ultimately show ?thesis by auto
  qed
qed

lemma example_13_chars:
  "chunkText (str ''abcdefghijklm'') 10 2 (str ''doc1'') [] =
   Some [\<lparr>c_id = str ''doc1_chunk_0'', c_text = str ''abcdefghij'', c_source = str ''doc1'',
           c_metadata = [(str ''chunkIndex'', JNum 0), (str ''start'', JNum 0), (str ''end'', JNum 10)],
           c_score = None\<rparr>,
         \<lparr>c_id = str ''doc1_chunk_1'', c_text = str ''ijklm'', c_source = str ''doc1'',
           c_metadata = [(str ''chunkIndex'', JNum 1), (str ''start'', JNum 8), (str ''end'', JNum 13)],
           c_score = None\<rparr>,
         \<lparr>c_id = str ''doc1_chunk_2'', c_text = str ''lm'', c_source = str ''doc1'',
           c_metadata = [(str ''chunkIndex'', JNum 2), (str ''start'', JNum 11), (str ''end'', JNum 13)],
           c_score = None\<rparr>]"
  by (simp add: chunkText_def loop_unfold chunk_step_eq chunk_window_def times_0_7_of_10 Let_def
        slice_def slice_index_def lastIndexOf_def str_def make_chunk_def trim_def is_space_def
        show_nat.simps)

text \<open>
  A text of 63 letters, a period and 60 letters at \<open>chunkSize = 90\<close>, \<open>overlap = 10\<close>:
  the period is at index 63, the double \<open>90 * 0.7\<close> is below 63, and the first chunk
  is cut after the period, at 64 characters.
\<close>

lemma example_period_at_63:
  "map_option spans
     (chunkText (replicate 63 97 @ [46] @ replicate 60 98) 90 10 (str ''doc1'') [])
     = Some [(0, 64), (54, 124), (114, 124)]"
  by (simp add: chunkText_def loop_unfold chunk_step_eq chunk_window_def times_0_7_of_90 Let_def
        slice_def slice_index_def lastIndexOf_def str_def spans_def span_start_def span_end_def
        takeWhile_append min_def)

text \<open>
  Claim C7 (chunker termination). For every text, every \<open>chunkSize\<close> and every
  \<open>overlap\<close> with \<open>0 \<le> overlap < chunkSize\<close>, \<open>chunkText\<close> returns: the loop ends
  after finitely many passes, at most one per character of the text.
\<close>

theorem chunkText_terminates:
  assumes "0 \<le> overlap" "overlap < chunkSize"
  shows "\<exists>chunks. chunkText text chunkSize overlap sourceId metadata = Some chunks
           \<and> length chunks \<le> length text"
proof (cases "text = []")
  case True
  then show ?thesis by (simp add: chunkText_def)
next
  case False
  define I where "I = (\<lambda>(s::int) (i::nat) (cs::chunk list).
     int (length cs) + (if s < int (length text) then int (length text) - s else 0) \<le> int (length text))"
  have "\<exists>cs s i. chunk_loop text chunkSize overlap sourceId metadata 0 0 [] = Some cs
            \<and> int (length text) \<le> s \<and> I s i cs"
  proof (rule chunk_loop_rule [OF assms])
    fix s i cs
    assume s: "0 \<le> s" "s < int (length text)" and "I s i cs"
    moreover have "s < fst (chunk_step text chunkSize overlap sourceId metadata s i cs)"
      by (rule chunk_step_advances [OF assms])
    moreover have "length (snd (chunk_step text chunkSize overlap sourceId metadata s i cs)) = Suc (length cs)"
      by (simp add: chunk_step_eq Let_def)
    ultimately show "I (fst (chunk_step text chunkSize overlap sourceId metadata s i cs)) (Suc i)
          (snd (chunk_step text chunkSize overlap sourceId metadata s i cs))"
      by (simp add: I_def)
  qed (simp_all add: I_def)
  then show ?thesis using False by (auto simp: chunkText_def I_def)
qed

theorem chunkText_terminates_witness:
  "(0::int) \<le> 2 \<and> (2::int) < 10 \<and>
   (\<exists>chunks. chunkText (str ''abcdefghijklm'') 10 2 (str ''doc1'') [] = Some chunks
      \<and> length chunks \<le> length (str ''abcdefghijklm''))"
  using chunkText_terminates [of 2 10 "str ''abcdefghijklm''" "str ''doc1''" "[]"] by simp

text \<open>
  Claim C1 (chunk coverage), evaluated at \<open>chunkSize = 10\<close>, \<open>overlap = 9\<close> on a text
  of 20 characters whose ninth character is a period. The first window is cut after
  the period, at 9 characters; 9 minus the overlap does not advance the cursor, so
  the guard moves it to \<open>0 + chunkSize = 10\<close>. The spans are \<open>[0,9)\<close>, \<open>[10,20)\<close> and
  \<open>[11,20)\<close>: position 9 lies in no span.
\<close>

theorem chunkText_skips_position_9:
  "map_option spans (chunkText (str ''aaaaaaaa.bbbbbbbbbbb'') 10 9 (str ''doc1'') [])
     = Some [(0, 9), (10, 20), (11, 20)]
   \<and> map_option (in_some_span 9) (chunkText (str ''aaaaaaaa.bbbbbbbbbbb'') 10 9 (str ''doc1'') [])
     = Some False"
  by (simp add: chunkText_def loop_unfold chunk_step_eq chunk_window_def times_0_7_of_10 Let_def
        slice_def slice_index_def lastIndexOf_def str_def spans_def in_some_span_def span_start_def
        span_end_def)

text \<open>
  Claim C2 (chunk size bound), as stated, fails: with \<open>chunkSize = 10\<close> and
  \<open>overlap = 2\<close> a text of 13 characters gives chunks of 10, 5 and 2 characters, and
  the second, which is not the last, is shorter than 7.
\<close>

theorem chunkText_short_inner_chunk:
  "map_option text_lengths (chunkText (str ''abcdefghijklm'') 10 2 (str ''doc1'') [])
     = Some [10, 5, 2]
   \<and> \<not> 7 * (10::int) \<le> 10 * 5"
  by (simp add: example_13_chars text_lengths_def)

text \<open>
  Claim C2, amended. Under \<open>0 \<le> overlap < chunkSize\<close> and for a \<open>chunkSize\<close> below
  \<open>2 ^ 53\<close>, the range in which the double product \<open>chunkSize * 0.7\<close> of the source
  is modelled, every chunk's text is at most \<open>chunkSize\<close> long and is the trimmed
  slice of the text over the chunk's span; and every chunk whose span ends before
  the end of the text has a span of at least 70 percent of \<open>chunkSize\<close>. The cut
  after a break point is decided by the rounded double, which may be slightly
  below seven tenths of \<open>chunkSize\<close>; the bound holds all the same, because the span
  includes the character at the break point. Trimming may make the text itself
  shorter, and a chunk whose span reaches the end of the text may be short, whether
  or not a further chunk follows it.
\<close>

theorem chunkText_chunk_sizes:
  assumes par: "0 \<le> overlap" "overlap < chunkSize" and safe: "chunkSize < 2 ^ 53"
    and res: "chunkText text chunkSize overlap sourceId metadata = Some chunks"
    and c: "c \<in> set chunks"
  shows "int (length (c_text c)) \<le> chunkSize
       \<and> c_text c = trim (slice text (span_start c) (span_end c))
       \<and> (span_end c < int (length text) \<longrightarrow> 7 * chunkSize \<le> 10 * (span_end c - span_start c))"
proof (cases "text = []")
  case True
  with res c show ?thesis by (simp add: chunkText_def)
next
  case False
  define Q where "Q = (\<lambda>c. int (length (c_text c)) \<le> chunkSize
       \<and> c_text c = trim (slice text (span_start c) (span_end c))
       \<and> (span_end c < int (length text) \<longrightarrow> 7 * chunkSize \<le> 10 * (span_end c - span_start c)))"
  define I where "I = (\<lambda>(s::int) (i::nat) cs. \<forall>c\<in>set cs. Q c)"
  have "\<exists>cs s i. chunk_loop text chunkSize overlap sourceId metadata 0 0 [] = Some cs
            \<and> int (length text) \<le> s \<and> I s i cs"
  proof (rule chunk_loop_rule [OF par])
    fix s i cs
    assume s: "0 \<le> s" "s < int (length text)" and inv: "I s i cs"
    define w where "w = chunk_window text chunkSize s"
    have pos: "0 < chunkSize" using par by simp
    note wf = window_facts [OF s pos, folded w_def]
    have "Q (make_chunk sourceId metadata i s w)"
      unfolding Q_def
    proof (intro conjI impI)
      have "length (c_text (make_chunk sourceId metadata i s w)) \<le> length w"
        by (simp add: make_chunk_def length_trim_le)
      then show "int (length (c_text (make_chunk sourceId metadata i s w))) \<le> chunkSize"
        using wf(1) by simp
      show "c_text (make_chunk sourceId metadata i s w) =
          trim (slice text (span_start (make_chunk sourceId metadata i s w))
                 (span_end (make_chunk sourceId metadata i s w)))"
        using wf(3) by (simp add: span_start_def span_end_def) (simp add: make_chunk_def)
      assume "span_end (make_chunk sourceId metadata i s w) < int (length text)"
      then have "s + int (length w) < int (length text)" by (simp add: span_end_def)
      then have "s + chunkSize < int (length text)" using wf(5) by linarith
      then have "7 * chunkSize < 10 * int (length w)" using safe by (rule wf(4))
      then show "7 * chunkSize \<le> 10 * (span_end (make_chunk sourceId metadata i s w)
          - span_start (make_chunk sourceId metadata i s w))"
        by (simp add: span_start_def span_end_def)
    qed
    then show "I (fst (chunk_step text chunkSize overlap sourceId metadata s i cs)) (Suc i)
          (snd (chunk_step text chunkSize overlap sourceId metadata s i cs))"
      using inv by (simp add: I_def chunk_step_eq Let_def w_def)
  qed (simp_all add: I_def)
  then have "Q c" using False res c by (auto simp: chunkText_def I_def)
  then show ?thesis unfolding Q_def .
qed

theorem chunkText_chunk_sizes_witness:
  "\<exists>chunks c. chunkText (str ''abcdefghijklm'') 10 2 (str ''doc1'') [] = Some chunks
     \<and> c \<in> set chunks \<and> span_end c < int (length (str ''abcdefghijklm''))
     \<and> int (length (c_text c)) \<le> 10
     \<and> c_text c = trim (slice (str ''abcdefghijklm'') (span_start c) (span_end c))
     \<and> 7 * 10 \<le> 10 * (span_end c - span_start c)"
proof -
  define c where "c = \<lparr>c_id = str ''doc1_chunk_0'', c_text = str ''abcdefghij'', c_source = str ''doc1'',
           c_metadata = [(str ''chunkIndex'', JNum 0), (str ''start'', JNum 0), (str ''end'', JNum 10)],
           c_score = None\<rparr>"
  have e: "span_end c < int (length (str ''abcdefghijklm''))"
    by (simp add: c_def span_end_def meta_num_def str_def)
  have m: "c \<in> set (the (chunkText (str ''abcdefghijklm'') 10 2 (str ''doc1'') []))"
    by (simp add: example_13_chars c_def)
  have r: "chunkText (str ''abcdefghijklm'') 10 2 (str ''doc1'') []
      = Some (the (chunkText (str ''abcdefghijklm'') 10 2 (str ''doc1'') []))"
    by (simp add: example_13_chars)
  have "(0::int) \<le> 2" "(2::int) < 10" "(10::int) < 2 ^ 53" by simp_all
  from chunkText_chunk_sizes [OF this r m] e r m show ?thesis by blast
qed

lemma in_some_span_append:
  "in_some_span p (cs @ [c]) \<longleftrightarrow> in_some_span p cs \<or> (span_start c \<le> p \<and> p < span_end c)"
  by (simp add: in_some_span_def list_ex_iff) blast

text \<open>
  Coverage under a bounded overlap. When the overlap is at most 70 percent of
  \<open>chunkSize\<close> and \<open>chunkSize\<close> is below \<open>2 ^ 53\<close>, every chunk cut before the end
  of the text is longer than the overlap, the guard of the loop fires only after a
  chunk that reaches the end of the text, and every position of the text lies in
  the span of some chunk.
\<close>

theorem chunkText_covers_when_overlap_small:
  assumes par: "0 \<le> overlap" "overlap < chunkSize" and small: "10 * overlap \<le> 7 * chunkSize"
    and safe: "chunkSize < 2 ^ 53"
    and res: "chunkText text chunkSize overlap sourceId metadata = Some chunks"
    and p: "0 \<le> p" "p < int (length text)"
  shows "in_some_span p chunks"
proof -
  have ne: "text \<noteq> []" using p by auto
  define I where "I = (\<lambda>(s::int) (i::nat) cs.
     \<forall>q. 0 \<le> q \<and> q < s \<and> q < int (length text) \<longrightarrow> in_some_span q cs)"
  have "\<exists>cs s i. chunk_loop text chunkSize overlap sourceId metadata 0 0 [] = Some cs
            \<and> int (length text) \<le> s \<and> I s i cs"
  proof (rule chunk_loop_rule [OF par])
    fix s i cs
    assume s: "0 \<le> s" "s < int (length text)" and inv: "I s i cs"
    define w where "w = chunk_window text chunkSize s"
    have pos: "0 < chunkSize" using par by simp
    note wf = window_facts [OF s pos, folded w_def]
    define s' where "s' = (if int (length w) \<le> overlap then s + chunkSize
                           else s + int (length w) - overlap)"
    have step: "chunk_step text chunkSize overlap sourceId metadata s i cs
        = (s', cs @ [make_chunk sourceId metadata i s w])"
      by (simp add: chunk_step_eq Let_def w_def s'_def)
    have reach: "q < s + int (length w)" if "q < s'" "q < int (length text)" for q
    proof (cases "int (length w) \<le> overlap")
      case False
      then show ?thesis using that par by (simp add: s'_def)
    next
      case True
      have "\<not> s + chunkSize < int (length text)"
      proof
        assume "s + chunkSize < int (length text)"
        then have "7 * chunkSize < 10 * int (length w)" using safe by (rule wf(4))
        with True small show False by simp
      qed
      then have "s + int (length w) = int (length text)" using wf(5) by simp
      with that show ?thesis by simp
    qed
    have "I s' (Suc i) (cs @ [make_chunk sourceId metadata i s w])"
      unfolding I_def
    proof (intro allI impI)
      fix q
      assume q: "0 \<le> q \<and> q < s' \<and> q < int (length text)"
      show "in_some_span q (cs @ [make_chunk sourceId metadata i s w])"
      proof (cases "q < s")
        case True
        with q inv show ?thesis by (simp add: I_def in_some_span_append)
      next
        case False
        with q reach [of q] show ?thesis
          by (simp add: in_some_span_append span_start_def span_end_def)
      qed
    qed
    then show "I (fst (chunk_step text chunkSize overlap sourceId metadata s i cs)) (Suc i)
          (snd (chunk_step text chunkSize overlap sourceId metadata s i cs))"
      by (simp add: step)
  qed (auto simp add: I_def)
  then have "\<forall>q. 0 \<le> q \<and> q < int (length text) \<longrightarrow> in_some_span q chunks"
    using ne res by (auto simp: chunkText_def I_def)
  with p show ?thesis by simp
qed

theorem chunkText_covers_when_overlap_small_witness:
  "(0::int) \<le> 2 \<and> (2::int) < 10 \<and> 10 * (2::int) \<le> 7 * 10 \<and> (10::int) < 2 ^ 53
   \<and> (\<exists>chunks. chunkText (str ''abcdefghijklm'') 10 2 (str ''doc1'') [] = Some chunks
         \<and> in_some_span 12 chunks)"
proof -
  have r: "chunkText (str ''abcdefghijklm'') 10 2 (str ''doc1'') []
      = Some (the (chunkText (str ''abcdefghijklm'') 10 2 (str ''doc1'') []))"
    by (simp add: example_13_chars)
  have "in_some_span 12 (the (chunkText (str ''abcdefghijklm'') 10 2 (str ''doc1'') []))"
    by (rule chunkText_covers_when_overlap_small [OF _ _ _ _ r]) simp_all
  with r show ?thesis by auto
qed

section \<open>Verification: extractCitations\<close>

lemma push_fold:
  "foldl (\<lambda>s c. push_unseen c s) (cits, set (map cit_id cits)) cands
     = (cits @ first_by_id (filter (\<lambda>d. cit_id d \<notin> set (map cit_id cits)) cands),
        set (map cit_id cits) \<union> set (map cit_id cands))"
proof (induction cands arbitrary: cits)
  case Nil
  then show ?case by simp
next
  case (Cons c cands)
  show ?case
  proof (cases "cit_id c \<in> set (map cit_id cits)")
    case True
    then have "push_unseen c (cits, set (map cit_id cits)) = (cits, set (map cit_id cits))"
      by (simp add: push_unseen_def)
    with True Cons.IH [of cits] show ?thesis by auto
  next
    case False
    then have "push_unseen c (cits, set (map cit_id cits))
        = (cits @ [c], set (map cit_id (cits @ [c])))"
      by (simp add: push_unseen_def)
    moreover have "filter (\<lambda>d. cit_id d \<notin> set (map cit_id (cits @ [c]))) cands
        = filter (\<lambda>d. cit_id d \<noteq> cit_id c) (filter (\<lambda>d. cit_id d \<notin> set (map cit_id cits)) cands)"
      by (auto intro: filter_cong)
    ultimately show ?thesis using False Cons.IH [of "cits @ [c]"] by simp
  qed
qed

lemma fold_rxcui:
  "foldl (\<lambda>s m. case first_digits m of Some rxId \<Rightarrow> push_unseen (rxnorm_citation rxId) s
                    | None \<Rightarrow> s) st ms
     = foldl (\<lambda>s c. push_unseen c s) st (map rxnorm_citation (List.map_filter first_digits ms))"
  by (induction ms arbitrary: st) (simp_all add: List.map_filter_def split: option.splits)

lemma cite_chunk_candidates:
  "cite_chunk st c = foldl (\<lambda>s c. push_unseen c s) st (chunk_candidates c)"
  by (simp add: cite_chunk_def chunk_candidates_def Let_def fold_rxcui foldl_map)

lemma fold_cite_chunk:
  "foldl cite_chunk st chunks = foldl (\<lambda>s c. push_unseen c s) st (citation_candidates chunks)"
  by (induction chunks arbitrary: st) (simp_all add: citation_candidates_def cite_chunk_candidates)

lemma extractCitations_first_by_id:
  "extractCitations chunks = first_by_id (citation_candidates chunks)"
  using push_fold [of "[]" "citation_candidates chunks"]
  by (simp add: extractCitations_def fold_cite_chunk)

lemma set_first_by_id: "set (first_by_id xs) \<subseteq> set xs"
  by (induction xs rule: first_by_id.induct) auto

lemma ids_first_by_id: "cit_id ` set (first_by_id xs) = cit_id ` set xs"
proof (induction xs rule: first_by_id.induct)
  case 1
  then show ?case by simp
next
  case (2 c cs)
  have "cit_id ` set (c # cs) = insert (cit_id c) (cit_id ` set (filter (\<lambda>d. cit_id d \<noteq> cit_id c) cs))"
    by auto
  with 2 show ?case by simp
qed

lemma distinct_first_by_id: "distinct (map cit_id (first_by_id xs))"
proof (induction xs rule: first_by_id.induct)
  case 1
  then show ?case by simp
next
  case (2 c cs)
  have "cit_id c \<notin> cit_id ` set (first_by_id (filter (\<lambda>d. cit_id d \<noteq> cit_id c) cs))"
    by (auto simp add: ids_first_by_id)
  with 2 show ?case by simp
qed

lemma filter_split:
  "filter P cs = ys @ x # zs \<Longrightarrow> \<exists>us vs. cs = us @ x # vs \<and> filter P us = ys \<and> P x"
proof (induction cs arbitrary: ys)
  case Nil
  then show ?case by simp
next
  case (Cons a cs)
  show ?case
  proof (cases "P a")
    case False
    with Cons.prems have "filter P cs = ys @ x # zs" by simp
    from Cons.IH [OF this] obtain us vs where "cs = us @ x # vs" "filter P us = ys" "P x" by blast
    with False have "a # cs = (a # us) @ x # vs \<and> filter P (a # us) = ys \<and> P x" by simp
    then show ?thesis by blast
  next
    case True
    show ?thesis
    proof (cases ys)
      case Nil
      with True Cons.prems have "a # cs = [] @ x # cs \<and> filter P [] = ys \<and> P x" by simp
      then show ?thesis by blast
    next
      case (Cons y ys')
      with True Cons.prems have "filter P cs = ys' @ x # zs" "y = a" by simp_all
      from Cons.IH [OF this(1)] obtain us vs where "cs = us @ x # vs" "filter P us = ys'" "P x" by blast
      with True Cons \<open>y = a\<close> have "a # cs = (a # us) @ x # vs \<and> filter P (a # us) = ys \<and> P x" by simp
      then show ?thesis by blast
    qed
  qed
qed

lemma first_by_id_first:
  "x \<in> set (first_by_id xs) \<Longrightarrow> \<exists>ys zs. xs = ys @ x # zs \<and> cit_id x \<notin> cit_id ` set ys"
proof (induction xs rule: first_by_id.induct)
  case 1
  then show ?case by simp
next
  case (2 c cs)
  show ?case
  proof (cases "x = c")
    case True
    then have "c # cs = [] @ x # cs \<and> cit_id x \<notin> cit_id ` set []" by simp
    then show ?thesis by blast
  next
    case False
    with 2 obtain ys zs where
      f: "filter (\<lambda>d. cit_id d \<noteq> cit_id c) cs = ys @ x # zs" and n: "cit_id x \<notin> cit_id ` set ys"
      by auto
    from filter_split [OF f] obtain us vs where cs: "cs = us @ x # vs"
      and ys: "filter (\<lambda>d. cit_id d \<noteq> cit_id c) us = ys" and xc: "cit_id x \<noteq> cit_id c"
      by blast
    have "cit_id x \<notin> cit_id ` set (c # us)"
      using n xc ys by auto
    with cs have "c # cs = (c # us) @ x # vs \<and> cit_id x \<notin> cit_id ` set (c # us)" by simp
    then show ?thesis by blast
  qed
qed

lemma source_in_candidates:
  "c \<in> set chunks \<Longrightarrow> source_citation c \<in> set (citation_candidates chunks)"
  by (auto simp: citation_candidates_def chunk_candidates_def)

lemmas cite_eval = extractCitations_def cite_chunk_def Let_def nct_at_def rxcui_at_def
  first_digits_def push_unseen_def nct_citation_def rxnorm_citation_def source_citation_def
  meta_get_def truthy_def is_digit_def is_upper_def is_rxcui_sep_def is_space_def ascii_lower_def
  str_def

text \<open>
  Claim C8 (citation dedup). The ids of the returned citations are pairwise
  distinct, and the returned list is the list of all candidate citations, in chunk
  order, cut down to the first occurrence of each id: every returned citation
  stands in the candidate list at a place before which its id does not occur.
\<close>

theorem extractCitations_dedup:
  "distinct (map cit_id (extractCitations chunks))
   \<and> extractCitations chunks = first_by_id (citation_candidates chunks)
   \<and> (\<forall>x \<in> set (extractCitations chunks).
         \<exists>ys zs. citation_candidates chunks = ys @ x # zs \<and> cit_id x \<notin> cit_id ` set ys)"
  using first_by_id_first [of _ "citation_candidates chunks"]
  by (simp add: extractCitations_first_by_id distinct_first_by_id)

theorem extractCitations_dedup_witness:
  "distinct (map cit_id (extractCitations [example_trial_chunk, example_rxcui_chunk]))
   \<and> extractCitations [example_trial_chunk, example_rxcui_chunk]
       = first_by_id (citation_candidates [example_trial_chunk, example_rxcui_chunk])
   \<and> extractCitations [example_trial_chunk, example_rxcui_chunk] =
     [\<lparr>cit_id = str ''NCT01234567'', cit_title = JUndefined, cit_type = JStr (str ''clinical_trial'')\<rparr>,
      \<lparr>cit_id = str ''doc1'', cit_title = JUndefined, cit_type = JStr (str ''document'')\<rparr>,
      \<lparr>cit_id = str ''42'', cit_title = JUndefined, cit_type = JStr (str ''rxnorm'')\<rparr>]"
proof -
  have "extractCitations [example_trial_chunk, example_rxcui_chunk] =
     [\<lparr>cit_id = str ''NCT01234567'', cit_title = JUndefined, cit_type = JStr (str ''clinical_trial'')\<rparr>,
      \<lparr>cit_id = str ''doc1'', cit_title = JUndefined, cit_type = JStr (str ''document'')\<rparr>,
      \<lparr>cit_id = str ''42'', cit_title = JUndefined, cit_type = JStr (str ''rxnorm'')\<rparr>]"
    by (simp add: example_trial_chunk_def example_rxcui_chunk_def cite_eval)
  with extractCitations_dedup [of "[example_trial_chunk, example_rxcui_chunk]"]
  show ?thesis by blast
qed

lemma first_by_id_keeps:
  "cit_id x \<notin> cit_id ` set ys \<Longrightarrow> x \<in> set (first_by_id (ys @ x # zs))"
proof (induction "length ys" arbitrary: ys zs rule: less_induct)
  case less
  show ?case
  proof (cases ys)
    case Nil
    then show ?thesis by simp
  next
    case (Cons y ys')
    let ?P = "\<lambda>d. cit_id d \<noteq> cit_id y"
    have xy: "?P x" using less.prems Cons by auto
    have "length (filter ?P ys') < length ys"
      using Cons by (simp add: le_imp_less_Suc)
    moreover have "cit_id x \<notin> cit_id ` set (filter ?P ys')"
      using less.prems Cons by auto
    ultimately have "x \<in> set (first_by_id (filter ?P ys' @ x # filter ?P zs))"
      by (rule less.hyps)
    then show ?thesis using Cons xy by simp
  qed
qed

lemma ids_structured:
  "map cit_id (map nct_citation (match_all nct_at (c_text c))
      @ map rxnorm_citation (List.map_filter first_digits (match_all rxcui_at (c_text c))))
     = structured_ids c"
  by (simp add: structured_ids_def nct_citation_def rxnorm_citation_def comp_def)

text \<open>
  Claim C4 (source fallback), as stated, fails: a chunk whose text holds an NCT id
  still contributes a citation built from its source.
\<close>

theorem extractCitations_source_beside_nct:
  "extractCitations [example_trial_chunk] =
     [\<lparr>cit_id = str ''NCT01234567'', cit_title = JUndefined, cit_type = JStr (str ''clinical_trial'')\<rparr>,
      \<lparr>cit_id = str ''doc1'', cit_title = JUndefined, cit_type = JStr (str ''document'')\<rparr>]"
  by (simp add: example_trial_chunk_def cite_eval)

text \<open>
  Claim C4, amended. The source citation does not depend on the structured
  identifiers. For every chunk of the list, whether or not its text yields an NCT
  or RxCUI match, the chunk's source is the id of a returned citation; and the
  citation built from the chunk's source is itself returned whenever that source
  is neither an id returned for the chunks before it nor one of the chunk's own
  structured identifiers, that is, whenever it has not been seen.
\<close>

theorem extractCitations_cites_every_source:
  assumes "c \<in> set chunks"
  shows "c_source c \<in> cit_id ` set (extractCitations chunks)
       \<and> (\<forall>pre post. chunks = pre @ c # post
              \<and> c_source c \<notin> cit_id ` set (extractCitations pre)
              \<and> c_source c \<notin> set (structured_ids c)
            \<longrightarrow> source_citation c \<in> set (extractCitations chunks))"
proof (intro conjI allI impI)
  have "cit_id (source_citation c) \<in> cit_id ` set (citation_candidates chunks)"
    using source_in_candidates [OF assms] by blast
  then show "c_source c \<in> cit_id ` set (extractCitations chunks)"
    by (simp add: extractCitations_first_by_id ids_first_by_id source_citation_def)
next
  fix pre post
  assume a: "chunks = pre @ c # post
      \<and> c_source c \<notin> cit_id ` set (extractCitations pre)
      \<and> c_source c \<notin> set (structured_ids c)"
  define ys where "ys = citation_candidates pre
      @ map nct_citation (match_all nct_at (c_text c))
      @ map rxnorm_citation (List.map_filter first_digits (match_all rxcui_at (c_text c)))"
  have cands: "citation_candidates chunks = ys @ source_citation c # citation_candidates post"
    using a by (simp add: citation_candidates_def chunk_candidates_def ys_def)
  have "c_source c \<notin> cit_id ` set (citation_candidates pre)"
    using a by (simp add: extractCitations_first_by_id ids_first_by_id)
  moreover have "cit_id ` set (map nct_citation (match_all nct_at (c_text c))
      @ map rxnorm_citation (List.map_filter first_digits (match_all rxcui_at (c_text c))))
      = set (structured_ids c)"
    using ids_structured [of c, THEN arg_cong, of set] by (simp only: set_map)
  ultimately have "cit_id (source_citation c) \<notin> cit_id ` set ys"
    using a unfolding ys_def by (simp add: source_citation_def image_Un)
  then show "source_citation c \<in> set (extractCitations chunks)"
    unfolding extractCitations_first_by_id cands by (rule first_by_id_keeps)
qed

theorem extractCitations_cites_every_source_witness:
  "example_trial_chunk \<in> set [example_trial_chunk, example_rxcui_chunk]
   \<and> structured_ids example_trial_chunk = [str ''NCT01234567'']
   \<and> c_source example_trial_chunk \<notin> cit_id ` set (extractCitations [])
   \<and> c_source example_trial_chunk \<notin> set (structured_ids example_trial_chunk)
   \<and> c_source example_trial_chunk
        \<in> cit_id ` set (extractCitations [example_trial_chunk, example_rxcui_chunk])
   \<and> source_citation example_trial_chunk
        \<in> set (extractCitations [example_trial_chunk, example_rxcui_chunk])"
proof -
  have m: "example_trial_chunk \<in> set [example_trial_chunk, example_rxcui_chunk]" by simp
  have s: "structured_ids example_trial_chunk = [str ''NCT01234567'']"
    by (simp add: structured_ids_def example_trial_chunk_def nct_at_def rxcui_at_def is_digit_def
          str_def List.map_filter_def ascii_lower_def is_upper_def)
  have e: "c_source example_trial_chunk \<notin> cit_id ` set (extractCitations [])"
    by (simp add: extractCitations_def)
  have n: "c_source example_trial_chunk \<notin> set (structured_ids example_trial_chunk)"
    by (simp add: s) (simp add: example_trial_chunk_def str_def)
  have d: "[example_trial_chunk, example_rxcui_chunk] = [] @ example_trial_chunk # [example_rxcui_chunk]"
    by simp
  from extractCitations_cites_every_source [OF m] d e n
  have "c_source example_trial_chunk
        \<in> cit_id ` set (extractCitations [example_trial_chunk, example_rxcui_chunk])"
    "source_citation example_trial_chunk
        \<in> set (extractCitations [example_trial_chunk, example_rxcui_chunk])"
    by blast+
  with m s e n show ?thesis by blast
qed

section \<open>Verification: summarizeChunks\<close>

lemma summarizeChunks_nonempty:
  assumes "chunks \<noteq> []"
  shows "\<exists>summary. summarizeChunks B chunks options =
           (if max_length options < int (length summary)
            then slice summary 0 (max_length options - 3) @ str ''...'' else summary)"
  using assms unfolding summarizeChunks_def Let_def by (simp only: length_0_conv if_False) blast

text \<open>
  Claim C3 (summary bound), as stated, fails: for an empty chunk list the not-found
  message is returned before the length control, whatever \<open>maxLength\<close> is. With
  \<open>maxLength = 10\<close> and no context field the message has 19 units.
\<close>

theorem summarizeChunks_not_found_exceeds:
  "length (summarizeChunks basic_builtins []
      \<lparr>o_source = str ''openfda'', o_query = None, o_drug = None, o_condition = None,
        o_maxLength = Some 10\<rparr>) = 19
   \<and> \<not> (19::int) \<le> 10"
  by (simp add: summarizeChunks_def max_length_def not_found_message_def lit_not_found_def or_else_def)

text \<open>
  Claim C3, amended. For a non-empty chunk list and a \<open>maxLength\<close> of at least 3
  (1200 when the option is absent) the summary is at most \<open>maxLength\<close> long, for
  every source tag and every context; for an empty chunk list the result is the
  not-found message with the echoed field, not truncated.
\<close>

theorem summarizeChunks_bounded:
  "(chunks \<noteq> [] \<and> 3 \<le> max_length options \<longrightarrow>
      int (length (summarizeChunks B chunks options)) \<le> max_length options)
   \<and> (chunks = [] \<longrightarrow> summarizeChunks B chunks options = not_found_message options)"
proof (intro conjI impI)
  assume "chunks = []"
  then show "summarizeChunks B chunks options = not_found_message options"
    by (simp add: summarizeChunks_def Let_def)
next
  assume a: "chunks \<noteq> [] \<and> 3 \<le> max_length options"
  define m where "m = max_length options"
  from a summarizeChunks_nonempty [of chunks B options] obtain summary where
    s: "summarizeChunks B chunks options =
          (if m < int (length summary) then slice summary 0 (m - 3) @ str ''...'' else summary)"
    unfolding m_def by blast
  show "int (length (summarizeChunks B chunks options)) \<le> max_length options"
  proof (cases "m < int (length summary)")
    case True
    then have "int (length (slice summary 0 (m - 3))) = m - 3"
      using a by (simp add: length_slice_in_range m_def)
    with True s show ?thesis by (simp add: m_def)
  next
    case False
    with s show ?thesis by (simp add: m_def)
  qed
qed

theorem summarizeChunks_bounded_witness:
  "[example_trial_chunk] \<noteq> []
   \<and> 3 \<le> max_length \<lparr>o_source = str ''openfda'', o_query = Some (str ''liver''), o_drug = None,
                         o_condition = None, o_maxLength = Some 50\<rparr>
   \<and> int (length (summarizeChunks basic_builtins [example_trial_chunk]
        \<lparr>o_source = str ''openfda'', o_query = Some (str ''liver''), o_drug = None,
          o_condition = None, o_maxLength = Some 50\<rparr>)) \<le> 50"
  using summarizeChunks_bounded [of "[example_trial_chunk]"
      "\<lparr>o_source = str ''openfda'', o_query = Some (str ''liver''), o_drug = None,
        o_condition = None, o_maxLength = Some 50\<rparr>" basic_builtins]
  by (simp add: max_length_def)

section \<open>Verification: scoreChunkByQuery and rankAndPickTop\<close>

lemma split_ws_last:
  assumes "dropWhile (\<lambda>c. \<not> is_space c) s = []"
  shows "split_ws s = [takeWhile (\<lambda>c. \<not> is_space c) s]"
  by (subst split_ws.simps) (simp only: Let_def assms if_True simp_thms)

lemma split_ws_more:
  assumes "dropWhile (\<lambda>c. \<not> is_space c) s \<noteq> []"
  shows "split_ws s = takeWhile (\<lambda>c. \<not> is_space c) s
                    # split_ws (dropWhile is_space (dropWhile (\<lambda>c. \<not> is_space c) s))"
  by (subst split_ws.simps) (simp only: Let_def assms if_False simp_thms)



lemma kw_dose: "allKeywords basic_builtins (str ''5.0'') [] = [str ''5.0'']"
  by (simp add: allKeywords_def basic_builtins_def split_ws_last split_ws_more str_def is_space_def ascii_lower_def is_upper_def)

lemmas rx_eval = basic_RegExp_def is_syntax_char_def pattern_at_def unit_matches_def is_line_terminator_def

lemma dose_score: "keyword_scores basic_builtins (str ''take 500 mg daily'') [str ''5.0''] 0 = Inr (ln 4)"
  by (simp add: basic_builtins_def rx_eval str_def)

lemma dose_total: "scoreChunkByQuery basic_builtins example_dose_chunk (str ''5.0'') [] = Inr (Fin (ln 4 / sqrt 17))"
  by (simp add: scoreChunkByQuery_def kw_dose Let_def)
     (simp add: example_dose_chunk_def basic_builtins_def rx_eval str_def ascii_lower_def is_upper_def div_sqrt_def)

lemma keyword_scores_returns:
  "(\<exists>r. keyword_scores B text kws score = Inr r) \<longleftrightarrow> (\<forall>k \<in> set kws. RegExp_g B k \<noteq> None)"
  by (induction kws arbitrary: score) (auto simp: Let_def split: option.splits)

lemma scoreChunkByQuery_returns:
  "(\<exists>s. scoreChunkByQuery B chunk query extraKeywords = Inr s)
     \<longleftrightarrow> (\<forall>k \<in> set (allKeywords B query extraKeywords). RegExp_g B k \<noteq> None)"
proof -
  have "(\<exists>s. scoreChunkByQuery B chunk query extraKeywords = Inr s)
      \<longleftrightarrow> (\<exists>r. keyword_scores B (toLowerCase B (c_text chunk))
                    (allKeywords B query extraKeywords) 0 = Inr r)"
    by (auto simp: scoreChunkByQuery_def Let_def split: sum.splits)
  then show ?thesis by (simp only: keyword_scores_returns)
qed

lemma score_chunks_returns:
  "(\<exists>r. score_chunks B chunks query extraKeywords = Inr r)
     \<longleftrightarrow> chunks = [] \<or> (\<forall>k \<in> set (allKeywords B query extraKeywords). RegExp_g B k \<noteq> None)"
proof (induction chunks)
  case Nil
  then show ?case by simp
next
  case (Cons c cs)
  have "(\<exists>r. score_chunks B (c # cs) query extraKeywords = Inr r)
      \<longleftrightarrow> (\<exists>s. scoreChunkByQuery B c query extraKeywords = Inr s)
          \<and> (\<exists>r. score_chunks B cs query extraKeywords = Inr r)"
    by (auto split: sum.splits)
  then show ?case using Cons.IH scoreChunkByQuery_returns [of B c query extraKeywords] by auto
qed

lemma score_chunks_scored:
  "score_chunks B chunks query extraKeywords = Inr scored \<Longrightarrow>
     list_all2 (\<lambda>c r. \<exists>s. scoreChunkByQuery B c query extraKeywords = Inr s
                         \<and> r = c\<lparr>c_score := Some s\<rparr>) chunks scored"
  by (induction chunks arbitrary: scored) (auto split: sum.splits)

lemma slice_index_le: "slice_index i n \<le> n"
  by (auto simp add: slice_index_def)

lemma length_insert_desc [simp]: "length (insert_desc key x ys) = Suc (length ys)"
  by (induction ys) simp_all

lemma length_sort_desc [simp]: "length (sort_desc key xs) = length xs"
  by (induction xs) (simp_all add: sort_desc_def)

lemma set_insert_desc [simp]: "set (insert_desc key x ys) = insert x (set ys)"
  by (induction ys) auto

lemma set_sort_desc [simp]: "set (sort_desc key xs) = set xs"
  by (induction xs) (simp_all add: sort_desc_def)

lemma length_slice_from_0:
  "length (slice xs 0 k) = (if 0 \<le> k then min (nat k) (length xs) else length xs - nat (- k))"
proof -
  have "length (slice xs 0 k) = slice_index k (length xs)"
    by (simp add: slice_def slice_index_def Let_def slice_index_le)
  also have "\<dots> = (if 0 \<le> k then min (nat k) (length xs) else length xs - nat (- k))"
  proof (cases "0 \<le> k")
    case True
    then show ?thesis by (simp add: slice_index_def)
  next
    case False
    then have "nat (max (int (length xs) + k) 0) = length xs - nat (- k)" by linarith
    with False show ?thesis by (simp add: slice_index_def)
  qed
  finally show ?thesis .
qed

lemma set_slice_subset: "set (slice xs b e) \<subseteq> set xs"
  by (auto simp: slice_def Let_def dest: in_set_takeD in_set_dropD)


lemma warning_kw: "allKeywords basic_builtins (str ''warning'') [] = [str ''warning'']"
  by (simp add: allKeywords_def basic_builtins_def split_ws_last split_ws_more str_def is_space_def ascii_lower_def is_upper_def)

lemma warning_score:
  "scoreChunkByQuery basic_builtins example_warning_chunk (str ''warning'') []
     = Inr (Fin ((2 * ln 8 + 14) / sqrt 15))"
  by (simp add: scoreChunkByQuery_def warning_kw Let_def)
     (simp add: example_warning_chunk_def basic_builtins_def rx_eval str_def ascii_lower_def is_upper_def div_sqrt_def)

lemma unrelated_score:
  "scoreChunkByQuery basic_builtins example_unrelated_chunk (str ''warning'') [] = Inr (Fin 0)"
  by (simp add: scoreChunkByQuery_def warning_kw Let_def)
     (simp add: example_unrelated_chunk_def basic_builtins_def rx_eval str_def ascii_lower_def is_upper_def div_sqrt_def)

lemma warning_score_pos: "\<not> (2 * ln 8 + 14) / sqrt 15 < (0::real)"
proof -
  have "0 < ln (8::real)" by simp
  then have "0 \<le> 2 * ln 8 + (14::real)" by simp
  moreover have "0 < sqrt (15::real)" by simp
  ultimately have "0 \<le> (2 * ln 8 + 14) / sqrt (15::real)" by (rule divide_nonneg_pos)
  then show ?thesis by linarith
qed


lemma warning_compiles: "\<forall>k \<in> set (allKeywords basic_builtins (str ''warning'') []). RegExp_g basic_builtins k \<noteq> None"
  by (simp add: warning_kw) (simp add: basic_builtins_def rx_eval str_def)


text \<open>
  Claim C5 (keyword score), evaluated on the chunk text \<open>take 500 mg daily\<close> with
  the query \<open>5.0\<close>. The query gives the one keyword \<open>5.0\<close>, which does not occur in
  the text. The keyword is passed to \<open>RegExp\<close> unescaped, its period matches any
  character, so the expression matches \<open>500\<close>: the loop counts one match and adds
  \<open>1 * log(1 + 3)\<close>, and the score is \<open>log(4) / sqrt(17)\<close> where the claim gives 0.
\<close>

theorem scoreChunkByQuery_counts_pattern_matches:
  "allKeywords basic_builtins (str ''5.0'') [] = [str ''5.0'']
   \<and> \<not> includes_str (toLowerCase basic_builtins (c_text example_dose_chunk)) (str ''5.0'')
   \<and> keyword_scores basic_builtins (toLowerCase basic_builtins (c_text example_dose_chunk))
         [str ''5.0''] 0 = Inr (ln 4)
   \<and> scoreChunkByQuery basic_builtins example_dose_chunk (str ''5.0'') []
         = Inr (Fin (ln 4 / sqrt 17))"
proof -
  have t: "toLowerCase basic_builtins (c_text example_dose_chunk) = str ''take 500 mg daily''"
    by (simp add: basic_builtins_def example_dose_chunk_def str_def ascii_lower_def is_upper_def)
  have "\<not> includes_str (str ''take 500 mg daily'') (str ''5.0'')"
    by (simp add: str_def)
  with t kw_dose dose_score dose_total show ?thesis by simp
qed

text \<open>
  Claim C6 (top-K length), as stated, fails for a negative \<open>topK\<close>:
  \<open>slice(0, -1)\<close> drops the last element only, so two chunks and \<open>topK = -1\<close> give
  one chunk back.
\<close>

theorem rankAndPickTop_negative_topK:
  "rankAndPickTop basic_builtins [example_warning_chunk, example_unrelated_chunk] (str ''warning'') (- 1) []
     = Inr [example_warning_chunk\<lparr>c_score := Some (Fin ((2 * ln 8 + 14) / sqrt 15))\<rparr>]"
  by (simp add: rankAndPickTop_def warning_score unrelated_score sort_desc_def or_0_def
        warning_score_pos slice_def slice_index_def)

text \<open>
  Claim C6, amended. On an empty chunk list \<open>rankAndPickTop\<close> returns the empty
  list. On any list it returns whenever every keyword compiles as a regular
  expression (otherwise the \<open>RegExp\<close> constructor throws while the first chunk is
  scored), and what it returns has \<open>min(topK, |chunks|)\<close> elements for \<open>topK \<ge> 0\<close>,
  hence at most \<open>topK\<close> and none for \<open>topK = 0\<close>, and \<open>|chunks| - |topK|\<close> elements
  (none when that is negative) for \<open>topK < 0\<close>.
\<close>

theorem rankAndPickTop_length:
  "(chunks = [] \<longrightarrow> rankAndPickTop B chunks query topK extraKeywords = Inr [])
   \<and> ((\<forall>k \<in> set (allKeywords B query extraKeywords). RegExp_g B k \<noteq> None) \<longrightarrow>
        (\<exists>r. rankAndPickTop B chunks query topK extraKeywords = Inr r))
   \<and> (\<forall>r. rankAndPickTop B chunks query topK extraKeywords = Inr r \<longrightarrow>
        length r = (if 0 \<le> topK then min (nat topK) (length chunks)
                    else length chunks - nat (- topK))
        \<and> (0 \<le> topK \<longrightarrow> int (length r) \<le> topK)
        \<and> (topK = 0 \<longrightarrow> r = []))"
proof (intro conjI allI impI)
  assume "chunks = []"
  then show "rankAndPickTop B chunks query topK extraKeywords = Inr []"
    by (simp add: rankAndPickTop_def slice_def)
next
  assume "\<forall>k \<in> set (allKeywords B query extraKeywords). RegExp_g B k \<noteq> None"
  then obtain scored where "score_chunks B chunks query extraKeywords = Inr scored"
    using score_chunks_returns [of B chunks query extraKeywords] by blast
  then show "\<exists>r. rankAndPickTop B chunks query topK extraKeywords = Inr r"
    by (simp add: rankAndPickTop_def)
next
  fix r
  assume r: "rankAndPickTop B chunks query topK extraKeywords = Inr r"
  then obtain scored where s: "score_chunks B chunks query extraKeywords = Inr scored"
    and r': "r = slice (sort_desc (\<lambda>c. or_0 (c_score c)) scored) 0 topK"
    by (auto simp: rankAndPickTop_def split: sum.splits)
  have "length scored = length chunks"
    using score_chunks_scored [OF s] by (simp add: list_all2_lengthD)
  then show len: "length r = (if 0 \<le> topK then min (nat topK) (length chunks)
                    else length chunks - nat (- topK))"
    by (simp add: r' length_slice_from_0)
  { assume "0 \<le> topK" then show "int (length r) \<le> topK" using len by simp }
  { assume "topK = 0" then show "r = []" using len by simp }
qed


theorem rankAndPickTop_length_witness:
  "(\<exists>r. rankAndPickTop basic_builtins [example_warning_chunk, example_unrelated_chunk]
           (str ''warning'') 1 [] = Inr r \<and> length r = 1)"
proof -
  note t = rankAndPickTop_length [of "[example_warning_chunk, example_unrelated_chunk]"
      basic_builtins "str ''warning''" 1 "[]"]
  from t warning_compiles obtain r where
    r: "rankAndPickTop basic_builtins [example_warning_chunk, example_unrelated_chunk]
           (str ''warning'') 1 [] = Inr r"
    by blast
  with t have "length r = (if 0 \<le> (1::int) then min (nat 1) (length [example_warning_chunk, example_unrelated_chunk])
                    else length [example_warning_chunk, example_unrelated_chunk] - nat (- 1))"
    by blast
  then have "length r = 1" by simp
  with r show ?thesis by blast
qed

section \<open>Verification: rankAndPickTop on a store\<close>

lemma map_scored_spec:
  assumes "map_scored B query kws rs h = Inr (rs', h')"
    and "\<forall>r. next_ref h \<le> r \<longrightarrow> objects h r = None"
    and "\<forall>r \<in> set rs. objects h r \<noteq> None"
  shows "arrays h' = arrays h \<and> next_ref h \<le> next_ref h'
       \<and> (\<forall>r. r < next_ref h \<longrightarrow> objects h' r = objects h r)
       \<and> (\<forall>r. next_ref h' \<le> r \<longrightarrow> objects h' r = None)
       \<and> list_all2 (\<lambda>r r'. next_ref h \<le> r' \<and> r' < next_ref h'
             \<and> (\<exists>c s. objects h r = Some c
                     \<and> scoreChunkByQuery B c query kws = Inr s
                     \<and> objects h' r' = Some (c\<lparr>c_score := Some s\<rparr>))) rs rs'"
  using assms
proof (induction rs arbitrary: h rs' h')
  case Nil
  then show ?case by simp
next
  case (Cons r rs)
  from Cons.prems(1) obtain c s rs1 where
    c: "objects h r = Some c" and s: "scoreChunkByQuery B c query kws = Inr s"
    and rec: "map_scored B query kws rs (snd (new_object (c\<lparr>c_score := Some s\<rparr>) h)) = Inr (rs1, h')"
    and rs': "rs' = next_ref h # rs1"
    by (auto simp: new_object_def split: option.splits sum.splits prod.splits)
  define h1 where "h1 = snd (new_object (c\<lparr>c_score := Some s\<rparr>) h)"
  have h1: "objects h1 = (objects h)(next_ref h \<mapsto> c\<lparr>c_score := Some s\<rparr>)"
    "arrays h1 = arrays h" "next_ref h1 = Suc (next_ref h)"
    by (simp_all add: h1_def new_object_def)
  have old: "r < next_ref h" if "objects h r \<noteq> None" for r
    using that Cons.prems(2) by (meson not_le)
  have p2: "\<forall>r. next_ref h1 \<le> r \<longrightarrow> objects h1 r = None"
    using Cons.prems(2) by (simp add: h1)
  have p3: "\<forall>r \<in> set rs. objects h1 r \<noteq> None"
    using Cons.prems(3) by (simp add: h1)
  note IH = Cons.IH [OF rec [folded h1_def] p2 p3]
  have same: "objects h1 q = objects h q" if "q < next_ref h" for q
    using that by (simp add: h1)
  have keep: "objects h' q = objects h q" if "q < next_ref h" for q
    using IH that same by (simp add: h1)
  have new: "objects h' (next_ref h) = Some (c\<lparr>c_score := Some s\<rparr>)"
    using IH by (simp add: h1)
  have tail: "list_all2 (\<lambda>r r'. next_ref h \<le> r' \<and> r' < next_ref h'
             \<and> (\<exists>c s. objects h r = Some c
                     \<and> scoreChunkByQuery B c query kws = Inr s
                     \<and> objects h' r' = Some (c\<lparr>c_score := Some s\<rparr>))) rs rs1"
  proof (rule list.rel_mono_strong [OF conjunct2 [OF conjunct2 [OF conjunct2 [OF conjunct2 [OF IH]]]]])
    fix q q'
    assume q: "q \<in> set rs" "q' \<in> set rs1"
    assume "next_ref h1 \<le> q' \<and> q' < next_ref h' \<and>
        (\<exists>c s. objects h1 q = Some c \<and> scoreChunkByQuery B c query kws = Inr s
               \<and> objects h' q' = Some (c\<lparr>c_score := Some s\<rparr>))"
    moreover have "objects h1 q = objects h q"
      using q(1) Cons.prems(3) old same by simp
    ultimately show "next_ref h \<le> q' \<and> q' < next_ref h' \<and>
        (\<exists>c s. objects h q = Some c \<and> scoreChunkByQuery B c query kws = Inr s
               \<and> objects h' q' = Some (c\<lparr>c_score := Some s\<rparr>))"
      by (simp add: h1)
  qed
  have "next_ref h < next_ref h'" using IH by (simp add: h1)
  with IH keep new tail c s show ?case by (simp add: rs' h1)
qed

lemma list_all2_witness:
  "list_all2 P xs ys \<Longrightarrow> y \<in> set ys \<Longrightarrow> \<exists>x \<in> set xs. P x y"
  by (induction rule: list_all2_induct) auto

lemma map_scored_returns:
  assumes "\<forall>k \<in> set (allKeywords B query kws). RegExp_g B k \<noteq> None"
    and "\<forall>r. next_ref h \<le> r \<longrightarrow> objects h r = None"
    and "\<forall>r \<in> set rs. objects h r \<noteq> None"
  shows "\<exists>rs' h'. map_scored B query kws rs h = Inr (rs', h')"
  using assms(2,3)
proof (induction rs arbitrary: h)
  case Nil
  then show ?case by simp
next
  case (Cons r rs)
  from Cons.prems obtain c where c: "objects h r = Some c" by auto
  obtain s where s: "scoreChunkByQuery B c query kws = Inr s"
    using scoreChunkByQuery_returns [of B c query kws] assms(1) by blast
  define h1 where "h1 = snd (new_object (c\<lparr>c_score := Some s\<rparr>) h)"
  have h1: "objects h1 = (objects h)(next_ref h \<mapsto> c\<lparr>c_score := Some s\<rparr>)"
    "next_ref h1 = Suc (next_ref h)"
    by (simp_all add: h1_def new_object_def)
  have "\<forall>r. next_ref h1 \<le> r \<longrightarrow> objects h1 r = None"
    using Cons.prems(1) by (simp add: h1)
  moreover have "\<forall>r \<in> set rs. objects h1 r \<noteq> None"
    using Cons.prems(2) by (simp add: h1)
  ultimately obtain rs' h' where "map_scored B query kws rs h1 = Inr (rs', h')"
    using Cons.IH by blast
  then show ?case
    using c s by (simp add: h1_def new_object_def)
qed


lemma insert_desc_map:
  "map f (insert_desc (\<lambda>x. k (f x)) x ys) = insert_desc k (f x) (map f ys)"
  by (induction ys) simp_all

lemma sort_desc_map: "map f (sort_desc (\<lambda>x. k (f x)) xs) = sort_desc k (map f xs)"
  by (induction xs) (simp_all add: sort_desc_def insert_desc_map)

lemma insert_desc_cong:
  "k1 x = k2 x \<Longrightarrow> (\<forall>y \<in> set ys. k1 y = k2 y) \<Longrightarrow> insert_desc k1 x ys = insert_desc k2 x ys"
  by (induction ys) simp_all

lemma sort_desc_cong:
  "(\<forall>x \<in> set xs. k1 x = k2 x) \<Longrightarrow> sort_desc k1 xs = sort_desc k2 xs"
proof (induction xs)
  case Nil
  then show ?case by (simp add: sort_desc_def)
next
  case (Cons x xs)
  then have "sort_desc k1 xs = sort_desc k2 xs" by simp
  moreover have "insert_desc k1 x (sort_desc k2 xs) = insert_desc k2 x (sort_desc k2 xs)"
    using Cons.prems by (intro insert_desc_cong) simp_all
  ultimately show ?case by (simp add: sort_desc_def)
qed

lemma map_slice: "map f (slice xs b e) = slice (map f xs) b e"
  by (simp add: slice_def Let_def take_map drop_map)

lemma score_chunks_of_store:
  "list_all2 (\<lambda>r r'. \<exists>c s. objects h r = Some c
                 \<and> scoreChunkByQuery B c query kws = Inr s
                 \<and> objects h1 r' = Some (c\<lparr>c_score := Some s\<rparr>)) elems scored \<Longrightarrow>
   score_chunks B (map (\<lambda>r. the (objects h r)) elems) query kws
     = Inr (map (\<lambda>r. the (objects h1 r)) scored)"
  by (induction rule: list_all2_induct) auto

text \<open>
  The store version computes what the version on values computes: the chunks of
  the returned array are the result of \<open>rankAndPickTop\<close> on the chunks of the input
  array.
\<close>

lemma rankAndPickTop_heap_refines:
  assumes ok: "heap_ok h" and arr: "arrays h chunks = Some elems"
    and res: "rankAndPickTop_heap B h chunks query topK extraKeywords = Inr (result, h')"
  shows "\<exists>out. arrays h' result = Some out
           \<and> rankAndPickTop B (map (\<lambda>r. the (objects h r)) elems) query topK extraKeywords
               = Inr (map (\<lambda>r. the (objects h' r)) out)"
proof -
  have fresh: "\<forall>r. next_ref h \<le> r \<longrightarrow> objects h r = None"
    and valid: "\<forall>r \<in> set elems. objects h r \<noteq> None"
    using ok arr by (auto simp: heap_ok_def)
  from res obtain scored h1 where m: "map_scored B query extraKeywords elems h = Inr (scored, h1)"
    by (auto simp: rankAndPickTop_heap_def arr split: sum.splits)
  define h2 where "h2 = snd (new_array scored h1)"
  define sorted where "sorted = sort_desc (score_at h2) scored"
  define h3 where "h3 = h2\<lparr>arrays := (arrays h2)(next_ref h1 \<mapsto> sorted)\<rparr>"
  have "rankAndPickTop_heap B h chunks query topK extraKeywords
      = Inr (new_array (slice sorted 0 topK) h3)"
    by (simp add: rankAndPickTop_heap_def arr m Let_def h3_def sorted_def h2_def new_array_def)
  with res have rh: "result = next_ref h3"
      "h' = h3\<lparr>arrays := (arrays h3)(next_ref h3 \<mapsto> slice sorted 0 topK),
                next_ref := Suc (next_ref h3)\<rparr>"
    by (auto simp add: new_array_def)
  have h': "objects h' = objects h1" "objects h2 = objects h1"
      "arrays h' result = Some (slice sorted 0 topK)"
    by (simp_all add: rh h3_def h2_def new_array_def)
  have la: "list_all2 (\<lambda>r r'. \<exists>c s. objects h r = Some c
                 \<and> scoreChunkByQuery B c query extraKeywords = Inr s
                 \<and> objects h1 r' = Some (c\<lparr>c_score := Some s\<rparr>)) elems scored"
    using map_scored_spec [OF m fresh valid]
    by (blast intro: list_all2_mono)
  have "\<forall>r' \<in> set scored. objects h1 r' \<noteq> None"
    using list_all2_witness [OF la] by fastforce
  then have "\<forall>r' \<in> set scored. score_at h2 r' = or_0 (c_score (the (objects h1 r')))"
    by (auto simp: score_at_def h')
  then have "sorted = sort_desc (\<lambda>r. or_0 (c_score (the (objects h1 r)))) scored"
    unfolding sorted_def by (rule sort_desc_cong)
  then have "map (\<lambda>r. the (objects h1 r)) sorted
      = sort_desc (\<lambda>c. or_0 (c_score c)) (map (\<lambda>r. the (objects h1 r)) scored)"
    using sort_desc_map [of "\<lambda>r. the (objects h1 r)" "\<lambda>c. or_0 (c_score c)" scored] by simp
  then have "rankAndPickTop B (map (\<lambda>r. the (objects h r)) elems) query topK extraKeywords
      = Inr (map (\<lambda>r. the (objects h' r)) (slice sorted 0 topK))"
    by (simp add: rankAndPickTop_def score_chunks_of_store [OF la] map_slice h')
  with h'(3) show ?thesis by blast
qed


lemma heap_ok_example: "heap_ok example_heap"
  by (auto simp: heap_ok_def example_heap_def split: if_splits)


text \<open>
  Claim C10 (no mutation of the input). In a well-formed store where \<open>chunks\<close> is
  an array, a call that returns leaves every object and every array that existed
  before the call as it was: the input array still holds the same references and
  each input chunk object is unchanged, so no score is set on it. The returned
  array is new, and each of its elements is a new object that equals an input
  chunk with the \<open>score\<close> field set. The call returns whenever every keyword
  compiles as a regular expression.
\<close>

theorem rankAndPickTop_heap_frame:
  assumes ok: "heap_ok h" and arr: "arrays h chunks = Some elems"
  shows "((\<forall>k \<in> set (allKeywords B query extraKeywords). RegExp_g B k \<noteq> None) \<longrightarrow>
           (\<exists>result h'. rankAndPickTop_heap B h chunks query topK extraKeywords = Inr (result, h')))
       \<and> (\<forall>result h'. rankAndPickTop_heap B h chunks query topK extraKeywords = Inr (result, h') \<longrightarrow>
             (\<forall>r. r < next_ref h \<longrightarrow> objects h' r = objects h r \<and> arrays h' r = arrays h r)
           \<and> arrays h' chunks = Some elems
           \<and> (\<forall>r \<in> set elems. objects h' r = objects h r)
           \<and> (\<exists>out. arrays h' result = Some out
                 \<and> (\<forall>r' \<in> set out. next_ref h \<le> r'
                       \<and> (\<exists>r \<in> set elems. \<exists>c s. objects h r = Some c
                              \<and> objects h' r' = Some (c\<lparr>c_score := Some s\<rparr>)))))"
proof (intro conjI allI impI)
  have fresh: "\<forall>r. next_ref h \<le> r \<longrightarrow> objects h r = None"
    and valid: "\<forall>r \<in> set elems. objects h r \<noteq> None"
    using ok arr by (auto simp: heap_ok_def)
  {
    assume "\<forall>k \<in> set (allKeywords B query extraKeywords). RegExp_g B k \<noteq> None"
    from map_scored_returns [OF this fresh valid]
    show "\<exists>result h'. rankAndPickTop_heap B h chunks query topK extraKeywords = Inr (result, h')"
      by (auto simp: rankAndPickTop_heap_def arr new_array_def Let_def)
  }
  fix result h'
  assume res: "rankAndPickTop_heap B h chunks query topK extraKeywords = Inr (result, h')"
  then obtain scored h1 where m: "map_scored B query extraKeywords elems h = Inr (scored, h1)"
    by (auto simp: rankAndPickTop_heap_def arr split: sum.splits)
  define h2 where "h2 = snd (new_array scored h1)"
  define sorted where "sorted = sort_desc (score_at h2) scored"
  define h3 where "h3 = h2\<lparr>arrays := (arrays h2)(next_ref h1 \<mapsto> sorted)\<rparr>"
  have "rankAndPickTop_heap B h chunks query topK extraKeywords
      = Inr (new_array (slice sorted 0 topK) h3)"
    by (simp add: rankAndPickTop_heap_def arr m Let_def h3_def sorted_def h2_def new_array_def)
  with res have rh: "result = next_ref h3"
      "h' = h3\<lparr>arrays := (arrays h3)(next_ref h3 \<mapsto> slice sorted 0 topK),
                next_ref := Suc (next_ref h3)\<rparr>"
    by (auto simp add: new_array_def)
  have h': "objects h' = objects h1"
      "arrays h' = (arrays h1)(next_ref h1 \<mapsto> sorted, Suc (next_ref h1) \<mapsto> slice sorted 0 topK)"
      "result = Suc (next_ref h1)"
    by (simp_all add: rh h3_def h2_def new_array_def)
  note spec = map_scored_spec [OF m fresh valid]
  have old_elems: "r < next_ref h" if "r \<in> set elems" for r
    using that fresh valid by (meson not_le)
  have cn: "chunks < next_ref h"
    using ok arr by (metis heap_ok_def not_le option.distinct(1))
  show "\<And>r. r < next_ref h \<Longrightarrow> objects h' r = objects h r"
    using spec by (simp add: h')
  show "\<And>r. r < next_ref h \<Longrightarrow> arrays h' r = arrays h r"
    using spec by (simp add: h')
  show "arrays h' chunks = Some elems"
    using spec cn arr by (simp add: h')
  show "\<forall>r \<in> set elems. objects h' r = objects h r"
    using spec old_elems by (simp add: h')
  have out: "arrays h' result = Some (slice sorted 0 topK)"
    by (simp add: h')
  have "next_ref h \<le> r' \<and> (\<exists>r \<in> set elems. \<exists>c s. objects h r = Some c
          \<and> objects h' r' = Some (c\<lparr>c_score := Some s\<rparr>))"
    if "r' \<in> set (slice sorted 0 topK)" for r'
  proof -
    from that have mem: "r' \<in> set scored"
      using set_slice_subset [of sorted 0 topK] by (auto simp: sorted_def)
    have la: "list_all2 (\<lambda>r r'. next_ref h \<le> r' \<and> r' < next_ref h1
             \<and> (\<exists>c s. objects h r = Some c
                     \<and> scoreChunkByQuery B c query extraKeywords = Inr s
                     \<and> objects h1 r' = Some (c\<lparr>c_score := Some s\<rparr>))) elems scored"
      using spec by blast
    from list_all2_witness [OF la mem] obtain r c s where "r \<in> set elems" "next_ref h \<le> r'"
        "objects h r = Some c" "objects h1 r' = Some (c\<lparr>c_score := Some s\<rparr>)"
      by blast
    then show ?thesis unfolding h'(1) by blast
  qed
  with out show "\<exists>out. arrays h' result = Some out
      \<and> (\<forall>r' \<in> set out. next_ref h \<le> r'
            \<and> (\<exists>r \<in> set elems. \<exists>c s. objects h r = Some c
                   \<and> objects h' r' = Some (c\<lparr>c_score := Some s\<rparr>)))"
    by blast
qed

theorem rankAndPickTop_heap_frame_witness:
  "heap_ok example_heap \<and> arrays example_heap 2 = Some [0, 1]
   \<and> (\<exists>result h'. rankAndPickTop_heap basic_builtins example_heap 2 (str ''warning'') 1 []
                     = Inr (result, h')
        \<and> objects h' 0 = Some example_warning_chunk
        \<and> objects h' 1 = Some example_unrelated_chunk
        \<and> arrays h' 2 = Some [0, 1])"
proof -
  have a: "arrays example_heap 2 = Some [0, 1]" by (simp add: example_heap_def)
  have o: "objects example_heap 0 = Some example_warning_chunk"
      "objects example_heap 1 = Some example_unrelated_chunk"
    by (simp_all add: example_heap_def)
  have n: "0 < next_ref example_heap" "1 < next_ref example_heap"
    by (simp_all add: example_heap_def)
  note f = rankAndPickTop_heap_frame [OF heap_ok_example a, of basic_builtins "str ''warning''" "[]" 1]
  from f warning_compiles obtain result h' where
    r: "rankAndPickTop_heap basic_builtins example_heap 2 (str ''warning'') 1 [] = Inr (result, h')"
    by blast
  with f have "(\<forall>r. r < next_ref example_heap \<longrightarrow> objects h' r = objects example_heap r)"
      "arrays h' 2 = Some [0, 1]"
    by blast+
  with n o have "objects h' 0 = Some example_warning_chunk"
      "objects h' 1 = Some example_unrelated_chunk" "arrays h' 2 = Some [0, 1]"
    by simp_all
  with r heap_ok_example a show ?thesis by blast
qed

section \<open>Verification: the pipeline\<close>

lemma search_expression_absent:
  assumes "p_query params = None" "p_drug params = None" "p_condition params = None"
  shows "search_expression params = None"
  using assms by (simp add: search_expression_def searchTerms_def present_def)

text \<open>
  Claim C9 (no-criteria input). When query, drug and condition are all absent, the
  pipeline sends no request, and it returns (it does not throw) a bundle whose
  summary is the prompt for input and whose top chunks and citations are empty.
\<close>

theorem aePipelineRag_no_criteria:
  assumes "p_query params = None" "p_drug params = None" "p_condition params = None"
  shows "requests (aePipelineRag B w params) = []
       \<and> (\<exists>bundle. outcome (aePipelineRag B w params) = Some (Inr bundle)
             \<and> r_summary bundle = prompt_for_input
             \<and> r_top_chunks bundle = [] \<and> r_citations bundle = []
             \<and> r_source bundle = str ''openfda'' \<and> r_query bundle = None
             \<and> r_drug bundle = None \<and> r_condition bundle = None)"
  using assms
  by (simp add: aePipelineRag_def Let_def search_expression_absent empty_result_def)

theorem aePipelineRag_no_criteria_witness:
  "p_query no_criteria = None \<and> p_drug no_criteria = None \<and> p_condition no_criteria = None
   \<and> requests (aePipelineRag basic_builtins offline_world no_criteria) = []
   \<and> outcome (aePipelineRag basic_builtins offline_world no_criteria)
       = Some (Inr \<lparr> r_source = str ''openfda'', r_query = None, r_drug = None,
                      r_condition = None, r_top_chunks = [], r_summary = prompt_for_input,
                      r_citations = [] \<rparr>)"
proof -
  have a: "p_query no_criteria = None" "p_drug no_criteria = None" "p_condition no_criteria = None"
    by (simp_all add: no_criteria_def)
  from aePipelineRag_no_criteria [OF a, of basic_builtins offline_world]
  obtain b where "requests (aePipelineRag basic_builtins offline_world no_criteria) = []"
    "outcome (aePipelineRag basic_builtins offline_world no_criteria) = Some (Inr b)"
    "r_summary b = prompt_for_input" "r_top_chunks b = []" "r_citations b = []"
    "r_source b = str ''openfda''" "r_query b = None" "r_drug b = None"
    "r_condition b = None"
    by blast
  with a show ?thesis by (cases b) simp
qed

end
